theory Spec2Isabelle
  imports Main "HOL-Library.Multiset"
begin

section \<open>Data model\<close>

text \<open>
  The gallery keeps one flat collection of image records in \<^verbatim>\<open>database/images.json\<close>.
  \<^verbatim>\<open>lib/db.ts\<close> declares the record as \<^verbatim>\<open>ImageData\<close> (twelve fields); the Locket sync
  and reset handlers write five more (\<^verbatim>\<open>video_url\<close>, \<^verbatim>\<open>source\<close>, \<^verbatim>\<open>locket_user_id\<close>,
  \<^verbatim>\<open>caption\<close>, \<^verbatim>\<open>overlays\<close>). Optional fields (\<^verbatim>\<open>description?: string\<close>) are options,
  where \<open>None\<close> is \<^verbatim>\<open>undefined\<close>. JavaScript numbers are modelled as \<open>int\<close> and strings
  as byte strings. The \<^verbatim>\<open>id\<close> field is called \<open>img_id\<close>, since \<open>id\<close> is the identity
  function of HOL. Overlay metadata is opaque to the code and kept as its JSON text.
\<close>

type_synonym overlays = string

record image =
  img_id :: int
  slug :: string
  title :: string
  description :: "string option"
  image_url :: string
  thumbnail_url :: "string option"
  video_url :: "string option"
  width :: int
  height :: int
  file_size :: "int option"
  order_index :: int
  created_at :: string
  updated_at :: string
  source :: "string option"
  locket_user_id :: "string option"
  caption :: "string option"
  overlays :: "overlays option"

text \<open>\<^verbatim>\<open>interface Database { images: ImageData[]; nextId: number }\<close>\<close>

record database =
  images :: "image list"
  nextId :: int

text \<open>
  The state of the file \<^verbatim>\<open>database/images.json\<close>: absent, present with text that
  \<^verbatim>\<open>JSON.parse\<close> rejects, a bare array of records (the legacy layout that the sync
  handler and the frontend still accept), or an object with \<^verbatim>\<open>images\<close> and \<^verbatim>\<open>nextId\<close>.
  Writes to the file are assumed to succeed.
\<close>

datatype dbfile = Missing | Unparseable | StoredArray "image list" | Stored database

datatype error = SyntaxError | TypeError | RangeError | FetchError | ReadError

text \<open>What \<^verbatim>\<open>JSON.parse\<close> hands back to \<^verbatim>\<open>initDB\<close>'s caller.\<close>

datatype parsed = ParsedArray "image list" | ParsedDb database

section \<open>The record store (lib/db.ts)\<close>

definition initialData :: database where
  "initialData = \<lparr>images = [], nextId = 1\<rparr>"

text \<open>
  \<^verbatim>\<open>initDB\<close> creates the file when it is absent and parses it otherwise; a parse failure
  is the \<^verbatim>\<open>SyntaxError\<close> of \<^verbatim>\<open>JSON.parse\<close>, which no function of lib/db.ts catches.
  The second component is the file after the call.
\<close>

fun initDB :: "dbfile \<Rightarrow> error + (parsed \<times> dbfile)" where
  "initDB Missing = Inr (ParsedDb initialData, Stored initialData)"
| "initDB Unparseable = Inl SyntaxError"
| "initDB (StoredArray xs) = Inr (ParsedArray xs, StoredArray xs)"
| "initDB (Stored db) = Inr (ParsedDb db, Stored db)"

text \<open>
  Numbers are doubles. The integers of the model stand for the doubles of integral value,
  and on them comparison, \<^verbatim>\<open>a - b\<close> as a sign and every sum that stays within 2^53 in
  magnitude are exact. \<^verbatim>\<open>nextId++\<close> is the one sum that can leave that range: its result
  is the double nearest to the exact one, the even one of two that are equally near.
  \<open>to_double\<close> rounds an integer so (below 2^1024 in magnitude, where doubles end), and at
  2^53 the counter stops: \<open>js_succ 9007199254740992 = 9007199254740992\<close>.
\<close>

function bit_length :: "int \<Rightarrow> nat" where
  "bit_length n = (if n \<le> 0 then 0 else Suc (bit_length (n div 2)))"
  by pat_completeness auto
termination
  by (relation "measure nat") auto

declare bit_length.simps [simp del]

definition to_double :: "int \<Rightarrow> int" where
  "to_double n =
     (if \<bar>n\<bar> \<le> 9007199254740992 then n
      else
        let e = bit_length \<bar>n\<bar> - 53;
            q = \<bar>n\<bar> div 2 ^ e;
            r = \<bar>n\<bar> mod 2 ^ e;
            q' = (if 2 * r > 2 ^ e \<or> (2 * r = 2 ^ e \<and> odd q) then q + 1 else q)
        in sgn n * (q' * 2 ^ e))"

definition js_succ :: "int \<Rightarrow> int" where
  "js_succ x = to_double (x + 1)"

definition saveDB :: "database \<Rightarrow> dbfile" where
  "saveDB db = Stored db"

text \<open>
  \<^verbatim>\<open>Array.prototype.sort\<close> with a comparator: a stable sort, so for a comparator that is
  a consistent ordering its result is determined. It is modelled by insertion from the
  right; an element goes in front of the first element it does not compare greater than.
\<close>

fun sort_insert :: "('a \<Rightarrow> 'a \<Rightarrow> int) \<Rightarrow> 'a \<Rightarrow> 'a list \<Rightarrow> 'a list" where
  "sort_insert cmp x [] = [x]"
| "sort_insert cmp x (y # ys) =
     (if cmp x y \<le> 0 then x # y # ys else y # sort_insert cmp x ys)"

definition array_sort :: "('a \<Rightarrow> 'a \<Rightarrow> int) \<Rightarrow> 'a list \<Rightarrow> 'a list" where
  "array_sort cmp xs = foldr (sort_insert cmp) xs []"

text \<open>\<^verbatim>\<open>(a, b) => b.order_index - a.order_index || b.id - a.id\<close>\<close>

definition compare_images :: "image \<Rightarrow> image \<Rightarrow> int" where
  "compare_images a b =
     (if order_index b - order_index a \<noteq> 0 then order_index b - order_index a
      else img_id b - img_id a)"

text \<open>
  On a legacy array file \<^verbatim>\<open>db.images\<close> is \<^verbatim>\<open>undefined\<close>, and every function below
  calls a method on it before it writes anything: a \<^verbatim>\<open>TypeError\<close>.
\<close>

definition getAllImages :: "dbfile \<Rightarrow> error + (image list \<times> dbfile)" where
  "getAllImages f =
     (case initDB f of
        Inl e \<Rightarrow> Inl e
      | Inr (ParsedArray xs, f') \<Rightarrow> Inl TypeError
      | Inr (ParsedDb db, f') \<Rightarrow> Inr (array_sort compare_images (images db), f'))"

definition getImageBySlug :: "string \<Rightarrow> dbfile \<Rightarrow> error + (image option \<times> dbfile)" where
  "getImageBySlug s f =
     (case initDB f of
        Inl e \<Rightarrow> Inl e
      | Inr (ParsedArray xs, f') \<Rightarrow> Inl TypeError
      | Inr (ParsedDb db, f') \<Rightarrow> Inr (find (\<lambda>img. slug img = s) (images db), f'))"

definition getImageById :: "int \<Rightarrow> dbfile \<Rightarrow> error + (image option \<times> dbfile)" where
  "getImageById i f =
     (case initDB f of
        Inl e \<Rightarrow> Inl e
      | Inr (ParsedArray xs, f') \<Rightarrow> Inl TypeError
      | Inr (ParsedDb db, f') \<Rightarrow> Inr (find (\<lambda>img. img_id img = i) (images db), f'))"

text \<open>
  \<^verbatim>\<open>createImage\<close> spreads the caller's data and then sets \<^verbatim>\<open>id\<close>, \<^verbatim>\<open>created_at\<close> and
  \<^verbatim>\<open>updated_at\<close>, so whatever the data carry in these three fields is overwritten.
  \<open>now\<close> is \<^verbatim>\<open>new Date().toISOString()\<close>. \<^verbatim>\<open>id: db.nextId++\<close> gives the record the old
  counter and stores the incremented one.
\<close>

definition createImage :: "string \<Rightarrow> image \<Rightarrow> dbfile \<Rightarrow> error + (image \<times> dbfile)" where
  "createImage now data f =
     (case initDB f of
        Inl e \<Rightarrow> Inl e
      | Inr (ParsedArray xs, f') \<Rightarrow> Inl TypeError
      | Inr (ParsedDb db, f') \<Rightarrow>
          (let newImage = data\<lparr>img_id := nextId db, created_at := now, updated_at := now\<rparr>
           in Inr (newImage,
                   saveDB \<lparr>images = images db @ [newImage], nextId = js_succ (nextId db)\<rparr>)))"

text \<open>
  \<^verbatim>\<open>Partial<ImageData>\<close>: for each declared field, \<open>None\<close> when the payload does not
  name it. For an optional field the payload may name it with the value \<^verbatim>\<open>undefined\<close>
  (\<open>Some None\<close>), which the spread copies like any other value. A payload that names a
  required field with the value \<^verbatim>\<open>undefined\<close> has no counterpart here, the record type
  having no place for the result.
\<close>

record image_patch =
  p_id :: "int option"
  p_slug :: "string option"
  p_title :: "string option"
  p_description :: "string option option"
  p_image_url :: "string option"
  p_thumbnail_url :: "string option option"
  p_width :: "int option"
  p_height :: "int option"
  p_file_size :: "int option option"
  p_order_index :: "int option"
  p_created_at :: "string option"
  p_updated_at :: "string option"

definition override :: "'a \<Rightarrow> 'a option \<Rightarrow> 'a" where
  "override old new = (case new of None \<Rightarrow> old | Some v \<Rightarrow> v)"

text \<open>\<^verbatim>\<open>{ ...db.images[index], ...data }\<close>\<close>

definition spread :: "image \<Rightarrow> image_patch \<Rightarrow> image" where
  "spread old p =
     old\<lparr>img_id := override (img_id old) (p_id p),
         slug := override (slug old) (p_slug p),
         title := override (title old) (p_title p),
         description := override (description old) (p_description p),
         image_url := override (image_url old) (p_image_url p),
         thumbnail_url := override (thumbnail_url old) (p_thumbnail_url p),
         width := override (width old) (p_width p),
         height := override (height old) (p_height p),
         file_size := override (file_size old) (p_file_size p),
         order_index := override (order_index old) (p_order_index p),
         created_at := override (created_at old) (p_created_at p),
         updated_at := override (updated_at old) (p_updated_at p)\<rparr>"

text \<open>\<^verbatim>\<open>findIndex\<close>: the first index whose element satisfies the test, \<open>None\<close> for \<^verbatim>\<open>-1\<close>.\<close>

fun findIndex :: "('a \<Rightarrow> bool) \<Rightarrow> 'a list \<Rightarrow> nat option" where
  "findIndex P [] = None"
| "findIndex P (x # xs) =
     (if P x then Some 0 else map_option Suc (findIndex P xs))"

definition updateImage ::
  "string \<Rightarrow> int \<Rightarrow> image_patch \<Rightarrow> dbfile \<Rightarrow> error + (image option \<times> dbfile)" where
  "updateImage now i data f =
     (case initDB f of
        Inl e \<Rightarrow> Inl e
      | Inr (ParsedArray xs, f') \<Rightarrow> Inl TypeError
      | Inr (ParsedDb db, f') \<Rightarrow>
          (case findIndex (\<lambda>img. img_id img = i) (images db) of
             None \<Rightarrow> Inr (None, f')
           | Some index \<Rightarrow>
               (let new = (spread (images db ! index) data)\<lparr>img_id := i, updated_at := now\<rparr>;
                    db' = db\<lparr>images := (images db)[index := new]\<rparr>
                in Inr (Some (images db' ! index), saveDB db'))))"

text \<open>\<^verbatim>\<open>splice(index, 1)\<close> removes the element at \<open>index\<close>.\<close>

definition splice1 :: "nat \<Rightarrow> 'a list \<Rightarrow> 'a list" where
  "splice1 index xs = take index xs @ drop (Suc index) xs"

definition deleteImage :: "int \<Rightarrow> dbfile \<Rightarrow> error + (bool \<times> dbfile)" where
  "deleteImage i f =
     (case initDB f of
        Inl e \<Rightarrow> Inl e
      | Inr (ParsedArray xs, f') \<Rightarrow> Inl TypeError
      | Inr (ParsedDb db, f') \<Rightarrow>
          (case findIndex (\<lambda>img. img_id img = i) (images db) of
             None \<Rightarrow> Inr (False, f')
           | Some index \<Rightarrow>
               Inr (True, saveDB (db\<lparr>images := splice1 index (images db)\<rparr>))))"

section \<open>Moments of the external service\<close>

text \<open>
  \<^verbatim>\<open>interface LocketMoment\<close> of the moments endpoint. \<^verbatim>\<open>string | null\<close> is an option;
  \<^verbatim>\<open>createTime\<close> is in seconds.
\<close>

record moment =
  m_id :: string
  m_user :: string
  imageUrl :: string
  thumbnailUrl :: string
  videoUrl :: "string option"
  m_caption :: "string option"
  m_overlays :: "overlays option"
  createTime :: int
  date :: string

text \<open>The JSON answer of \<^verbatim>\<open>/api/locket/moments\<close> as the handlers read it.\<close>

record moments_result =
  mr_success :: bool
  mr_data :: "moment list option"
  mr_message :: "string option"

text \<open>
  The clock and the date formatting of the runtime, as far as the handlers use them:
  \<open>now\<close> is \<^verbatim>\<open>new Date().toISOString()\<close> (one reading per request), \<open>iso\<close> the ISO text of
  a time value in milliseconds, \<open>locale_vi\<close> is \<^verbatim>\<open>toLocaleDateString('vi-VN')\<close>.
\<close>

record clock =
  now :: string
  iso :: "int \<Rightarrow> string"
  locale_vi :: "int \<Rightarrow> string"

text \<open>
  \<^verbatim>\<open>Date.prototype.toISOString\<close> throws a \<^verbatim>\<open>RangeError\<close> on a time value beyond
  8.64e15 milliseconds from the epoch.
\<close>

definition toISOString :: "clock \<Rightarrow> int \<Rightarrow> error + string" where
  "toISOString c ms =
     (if - 8640000000000000 \<le> ms \<and> ms \<le> 8640000000000000 then Inr (iso c ms)
      else Inl RangeError)"

text \<open>Truthiness of a \<^verbatim>\<open>string | null | undefined\<close> value, and \<^verbatim>\<open>a || b\<close> on such values.\<close>

definition truthy :: "string option \<Rightarrow> bool" where
  "truthy v = (case v of None \<Rightarrow> False | Some s \<Rightarrow> s \<noteq> [])"

definition or_else :: "string option \<Rightarrow> string option \<Rightarrow> string option" where
  "or_else a b = (if truthy a then a else b)"

text \<open>The text of a value that is truthy when it is read, and \<^verbatim>\<open>a || null\<close>.\<close>

definition or_empty :: "string option \<Rightarrow> string" where
  "or_empty v = (case v of Some s \<Rightarrow> s | None \<Rightarrow> [])"

definition or_null :: "string option \<Rightarrow> string option" where
  "or_null v = (if truthy v then v else None)"

text \<open>\<^verbatim>\<open>moment.thumbnailUrl || moment.imageUrl\<close> as a filter test.\<close>

definition has_url :: "moment \<Rightarrow> bool" where
  "has_url m = (thumbnailUrl m \<noteq> [] \<or> imageUrl m \<noteq> [])"

text \<open>
  \<^verbatim>\<open>moment.date || (moment.createTime ? new Date(moment.createTime * 1000).toISOString()
  : new Date().toISOString())\<close>
\<close>

definition dateStr :: "clock \<Rightarrow> moment \<Rightarrow> error + string" where
  "dateStr c m =
     (if date m \<noteq> [] then Inr (date m)
      else if createTime m \<noteq> 0 then toISOString c (createTime m * 1000)
      else Inr (now c))"

text \<open>
  \<^verbatim>\<open>moment.caption || `Locket ${moment.date || new Date(moment.createTime * 1000)
  .toLocaleDateString('vi-VN')}`\<close>
\<close>

definition moment_title :: "clock \<Rightarrow> moment \<Rightarrow> string" where
  "moment_title c m =
     (if truthy (m_caption m) then (case m_caption m of Some s \<Rightarrow> s | None \<Rightarrow> [])
      else ''Locket '' @ (if date m \<noteq> [] then date m else locale_vi c (createTime m * 1000)))"

text \<open>
  The two description texts, \<^verbatim>\<open>'Video t\<close>\<open>\<dots>\<close>\<^verbatim>\<open> Locket'\<close> and its counterpart for
  photos, as UTF-8 bytes.
\<close>

definition video_description :: string where
  "video_description = ''Video t'' @ [char_of (0xE1::nat), char_of (0xBB::nat), char_of (0xAB::nat)]
     @ '' Locket''"

definition photo_description :: string where
  "photo_description =
     [char_of (0xE1::nat), char_of (0xBA::nat), char_of (0xA2::nat)] @ ''nh c''
     @ [char_of (0xC3::nat), char_of (0xA1::nat)] @ '' nh''
     @ [char_of (0xC3::nat), char_of (0xA2::nat)] @ ''n t''
     @ [char_of (0xE1::nat), char_of (0xBB::nat), char_of (0xAB::nat)] @ '' Locket''"

definition moment_description :: "moment \<Rightarrow> string" where
  "moment_description m = (if truthy (videoUrl m) then video_description else photo_description)"

definition locket_slug :: "moment \<Rightarrow> string" where
  "locket_slug m = ''locket-'' @ m_id m"

section \<open>Requests and responses of the Locket handlers\<close>

text \<open>
  Of a request the handlers read the method, \<^verbatim>\<open>req.body?.token\<close>, \<^verbatim>\<open>req.body?.localId\<close>
  and the headers \<^verbatim>\<open>x-locket-token\<close> and \<^verbatim>\<open>x-locket-uid\<close>.
\<close>

record locket_request =
  http_method :: string
  body_token :: "string option"
  body_localId :: "string option"
  header_token :: "string option"
  header_uid :: "string option"

text \<open>
  The message texts of the responses are Vietnamese sentences; the model names each
  message instead of spelling it. \<open>Upstream\<close> carries \<^verbatim>\<open>momentsResult.message\<close>,
  \<open>Failure\<close> the caught exception.
\<close>

datatype message =
    Method_not_allowed
  | Not_connected
  | Upstream "string option"
  | Already_synced nat
  | Nothing_new
  | Synced nat
  | Reset_done nat
  | Failure error

record locket_response =
  status :: nat
  success :: bool
  r_syncedCount :: "nat option"
  r_skippedCount :: "nat option"
  r_message :: message

definition respond :: "nat \<Rightarrow> bool \<Rightarrow> nat option \<Rightarrow> nat option \<Rightarrow> message \<Rightarrow> locket_response" where
  "respond st ok synced skipped msg =
     \<lparr>status = st, success = ok, r_syncedCount = synced, r_skippedCount = skipped,
      r_message = msg\<rparr>"

section \<open>Sync (the handler of /api/locket/sync)\<close>

text \<open>
  Loading the existing gallery: any failure of \<^verbatim>\<open>readFileSync\<close> or \<^verbatim>\<open>JSON.parse\<close> is
  caught and leaves the empty collection with \<^verbatim>\<open>nextId = 1\<close>. For a legacy array the next
  id is one more than the largest id (and at least 1), for an object it is
  \<^verbatim>\<open>db.nextId || existingImages.length + 1\<close>.
\<close>

definition load_existing :: "dbfile \<Rightarrow> image list \<times> int" where
  "load_existing f =
     (case f of
        Missing \<Rightarrow> ([], 1)
      | Unparseable \<Rightarrow> ([], 1)
      | StoredArray xs \<Rightarrow> (xs, js_succ (fold max (map img_id xs) 0))
      | Stored db \<Rightarrow>
          (images db, if nextId db \<noteq> 0 then nextId db else int (length (images db)) + 1))"

text \<open>The variables the \<^verbatim>\<open>map\<close> callback of sync mutates.\<close>

record sync_state =
  existingSlugs :: "string set"
  s_nextId :: int
  syncedCount :: nat
  skippedCount :: nat

text \<open>The gallery record sync builds from a moment that is not skipped.\<close>

definition sync_image :: "clock \<Rightarrow> string \<Rightarrow> nat \<Rightarrow> sync_state \<Rightarrow> moment \<Rightarrow> string \<Rightarrow> image" where
  "sync_image c localId n st m d =
     \<lparr>img_id = s_nextId st,
      slug = locket_slug m,
      title = moment_title c m,
      description = Some (moment_description m),
      image_url = (if imageUrl m \<noteq> [] then imageUrl m else thumbnailUrl m),
      thumbnail_url = Some (if thumbnailUrl m \<noteq> [] then thumbnailUrl m else imageUrl m),
      video_url = (if truthy (videoUrl m) then videoUrl m else None),
      width = 1080,
      height = 1080,
      file_size = None,
      order_index = int n + int (syncedCount st),
      created_at = d,
      updated_at = now c,
      source = Some ''locket'',
      locket_user_id = Some localId,
      caption = None,
      overlays = None\<rparr>"

text \<open>
  The \<^verbatim>\<open>map\<close> callback over the moments that passed the URL filter; \<open>n\<close> is
  \<^verbatim>\<open>existingImages.length\<close>. A skipped moment yields \<^verbatim>\<open>null\<close>. The counters and the slug
  set are updated before the date is computed, and the date may throw.
\<close>

fun sync_map ::
  "clock \<Rightarrow> string \<Rightarrow> nat \<Rightarrow> moment list \<Rightarrow> sync_state \<Rightarrow> error + (image option list \<times> sync_state)"
where
  "sync_map c localId n [] st = Inr ([], st)"
| "sync_map c localId n (m # ms) st =
     (if locket_slug m \<in> existingSlugs st then
        (case sync_map c localId n ms (st\<lparr>skippedCount := skippedCount st + 1\<rparr>) of
           Inl e \<Rightarrow> Inl e
         | Inr (out, st') \<Rightarrow> Inr (None # out, st'))
      else
        (let st1 = st\<lparr>syncedCount := syncedCount st + 1,
                      existingSlugs := insert (locket_slug m) (existingSlugs st)\<rparr>
         in case dateStr c m of
              Inl e \<Rightarrow> Inl e
            | Inr d \<Rightarrow>
                (case sync_map c localId n ms (st1\<lparr>s_nextId := js_succ (s_nextId st1)\<rparr>) of
                   Inl e \<Rightarrow> Inl e
                 | Inr (out, st') \<Rightarrow> Inr (Some (sync_image c localId n st1 m d) # out, st'))))"

text \<open>\<^verbatim>\<open>.filter(Boolean)\<close> on an array of records and \<^verbatim>\<open>null\<close>s.\<close>

definition filter_Boolean :: "'a option list \<Rightarrow> 'a list" where
  "filter_Boolean xs = List.map_filter (\<lambda>x. x) xs"

text \<open>
  The handler. \<open>fetched\<close> is the outcome of the request to the moments endpoint and of
  reading its JSON body (\<open>Inl\<close> when either throws); the handler consults it only after
  the credential check.
\<close>

definition sync_handler ::
  "clock \<Rightarrow> locket_request \<Rightarrow> error + moments_result \<Rightarrow> dbfile \<Rightarrow> locket_response \<times> dbfile"
where
  "sync_handler c req fetched f =
     (if http_method req \<noteq> ''POST'' then (respond 405 False None None Method_not_allowed, f)
      else
        let idToken = or_else (body_token req) (header_token req);
            localId = or_else (body_localId req) (header_uid req)
        in if \<not> truthy idToken \<or> \<not> truthy localId then
             (respond 401 False None None Not_connected, f)
           else
             (case fetched of
                Inl e \<Rightarrow> (respond 500 False None None (Failure e), f)
              | Inr momentsResult \<Rightarrow>
                  (case mr_data momentsResult of
                     None \<Rightarrow> (respond 400 False None None (Upstream (mr_message momentsResult)), f)
                   | Some data \<Rightarrow>
                       if \<not> mr_success momentsResult then
                         (respond 400 False None None (Upstream (mr_message momentsResult)), f)
                       else
                         let (existingImages, nextId0) = load_existing f;
                             st0 = \<lparr>existingSlugs = set (map slug existingImages),
                                    s_nextId = nextId0, syncedCount = 0, skippedCount = 0\<rparr>
                         in (case sync_map c (case localId of Some u \<Rightarrow> u | None \<Rightarrow> [])
                                    (length existingImages) (filter has_url data) st0 of
                               Inl e \<Rightarrow> (respond 500 False None None (Failure e), f)
                             | Inr (out, st) \<Rightarrow>
                                 (let newImages = filter_Boolean out
                                  in if length newImages = 0 then
                                       (respond 200 True (Some 0) (Some (skippedCount st))
                                          (if skippedCount st > 0 then Already_synced (skippedCount st)
                                           else Nothing_new), f)
                                     else
                                       (respond 200 True (Some (length newImages))
                                          (Some (skippedCount st)) (Synced (length newImages)),
                                        Stored \<lparr>images = existingImages @ newImages,
                                                nextId = s_nextId st\<rparr>))))))"

section \<open>Reset (pages/api/locket/reset.ts)\<close>

text \<open>
  Reset converts every moment that passed the URL filter, numbering from 1; an array
  has fewer than 2^32 elements, so this counter stays where increments are exact. In the
  record literal \<^verbatim>\<open>id: nextId++\<close> is evaluated before \<^verbatim>\<open>order_index: nextId - 1\<close>, so both
  are the old value of \<^verbatim>\<open>nextId\<close>.
\<close>

definition reset_image :: "clock \<Rightarrow> string \<Rightarrow> int \<Rightarrow> moment \<Rightarrow> string \<Rightarrow> image" where
  "reset_image c localId nid m d =
     \<lparr>img_id = nid,
      slug = locket_slug m,
      title = moment_title c m,
      description = Some (moment_description m),
      image_url = (if imageUrl m \<noteq> [] then imageUrl m else thumbnailUrl m),
      thumbnail_url = Some (if thumbnailUrl m \<noteq> [] then thumbnailUrl m else imageUrl m),
      video_url = (if truthy (videoUrl m) then videoUrl m else None),
      width = 1080,
      height = 1080,
      file_size = None,
      order_index = (nid + 1) - 1,
      created_at = d,
      updated_at = now c,
      source = Some ''locket'',
      locket_user_id = Some localId,
      caption = (if truthy (m_caption m) then m_caption m else None),
      overlays = m_overlays m\<rparr>"

fun reset_map :: "clock \<Rightarrow> string \<Rightarrow> moment list \<Rightarrow> int \<Rightarrow> error + (image list \<times> int)" where
  "reset_map c localId [] nid = Inr ([], nid)"
| "reset_map c localId (m # ms) nid =
     (case dateStr c m of
        Inl e \<Rightarrow> Inl e
      | Inr d \<Rightarrow>
          (case reset_map c localId ms (nid + 1) of
             Inl e \<Rightarrow> Inl e
           | Inr (out, nid') \<Rightarrow> Inr (reset_image c localId nid m d # out, nid')))"

definition reset_handler ::
  "clock \<Rightarrow> locket_request \<Rightarrow> error + moments_result \<Rightarrow> dbfile \<Rightarrow> locket_response \<times> dbfile"
where
  "reset_handler c req fetched f =
     (if http_method req \<noteq> ''POST'' then (respond 405 False None None Method_not_allowed, f)
      else
        let idToken = or_else (body_token req) (header_token req);
            localId = or_else (body_localId req) (header_uid req)
        in if \<not> truthy idToken \<or> \<not> truthy localId then
             (respond 401 False None None Not_connected, f)
           else
             (case fetched of
                Inl e \<Rightarrow> (respond 500 False None None (Failure e), f)
              | Inr momentsResult \<Rightarrow>
                  (case mr_data momentsResult of
                     None \<Rightarrow> (respond 400 False None None (Upstream (mr_message momentsResult)), f)
                   | Some data \<Rightarrow>
                       if \<not> mr_success momentsResult then
                         (respond 400 False None None (Upstream (mr_message momentsResult)), f)
                       else
                         (case reset_map c (case localId of Some u \<Rightarrow> u | None \<Rightarrow> [])
                                 (filter has_url data) 1 of
                            Inl e \<Rightarrow> (respond 500 False None None (Failure e), f)
                          | Inr (newImages, nextId') \<Rightarrow>
                              (respond 200 True (Some (length newImages)) None
                                 (Reset_done (length newImages)),
                               Stored \<lparr>images = newImages, nextId = nextId'\<rparr>)))))"

section \<open>The public read API (pages/api/images/index.ts)\<close>

text \<open>
  \<^verbatim>\<open>req.query.slug\<close> is \<^verbatim>\<open>undefined\<close>, a string, or an array of strings when the
  parameter is repeated.
\<close>

datatype query_value = Absent | Single string | Repeated "string list"

record api_request =
  a_method :: string
  q_slug :: query_value

datatype api_body = Error_body string | Image_body image | Images_body "image list"

record api_response =
  a_status :: nat
  a_body :: api_body

text \<open>
  The guard \<^verbatim>\<open>slug && typeof slug === 'string'\<close> passes for a non-empty single value.
  An exception of the store leaves the handler (\<open>Inl\<close>).
\<close>

definition images_handler :: "api_request \<Rightarrow> dbfile \<Rightarrow> error + (api_response \<times> dbfile)" where
  "images_handler req f =
     (if a_method req = ''GET'' then
        (case q_slug req of
           Single s \<Rightarrow>
             (if s \<noteq> [] then
                (case getImageBySlug s f of
                   Inl e \<Rightarrow> Inl e
                 | Inr (None, f') \<Rightarrow>
                     Inr (\<lparr>a_status = 404, a_body = Error_body ''Image not found''\<rparr>, f')
                 | Inr (Some img, f') \<Rightarrow>
                     Inr (\<lparr>a_status = 200, a_body = Image_body img\<rparr>, f'))
              else
                (case getAllImages f of
                   Inl e \<Rightarrow> Inl e
                 | Inr (imgs, f') \<Rightarrow> Inr (\<lparr>a_status = 200, a_body = Images_body imgs\<rparr>, f')))
         | _ \<Rightarrow>
             (case getAllImages f of
                Inl e \<Rightarrow> Inl e
              | Inr (imgs, f') \<Rightarrow> Inr (\<lparr>a_status = 200, a_body = Images_body imgs\<rparr>, f')))
      else Inr (\<lparr>a_status = 405, a_body = Error_body ''Method not allowed''\<rparr>, f))"

section \<open>Upload (the admin images handler, POST /api/admin/images)\<close>

text \<open>
  \<^verbatim>\<open>generateSlug\<close> lower-cases the file name, removes the extension, replaces every run
  of characters outside \<^verbatim>\<open>[a-z0-9]\<close> by one dash and strips dashes at both ends.
  Characters are bytes here (a character outside ASCII is the bytes of its UTF-8 form).
  On a text of ASCII characters \<^verbatim>\<open>toLowerCase\<close> changes the letters A to Z and nothing
  else. On any other text it follows the Unicode case tables of the runtime, which are
  no part of the repository (the Kelvin sign becomes the letter k there): they are the
  parameter \<open>lc\<close>, the lower-cased text of a text. The later steps leave only letters,
  digits and dashes, so their result does not depend on how the characters outside ASCII
  are encoded.
\<close>

definition lower_char :: "char \<Rightarrow> char" where
  "lower_char c =
     (if (65::nat) \<le> of_char c \<and> of_char c \<le> (90::nat) then char_of (of_char c + (32::nat))
      else c)"

definition ascii :: "char \<Rightarrow> bool" where
  "ascii c = ((of_char c :: nat) < 128)"

definition toLowerCase :: "(string \<Rightarrow> string) \<Rightarrow> string \<Rightarrow> string" where
  "toLowerCase lc s = (if list_all ascii s then map lower_char s else lc s)"

text \<open>
  \<^verbatim>\<open>.replace(/\.[^/.]+$/, '')\<close>: the match is a dot followed, up to the end of the text,
  by at least one character, none of them a dot or a slash. Only the last dot of the text
  can start it, so the text is scanned from its end.
\<close>

definition ext_char :: "char \<Rightarrow> bool" where
  "ext_char c = (c \<noteq> CHR ''/'' \<and> c \<noteq> CHR ''.'')"

definition remove_extension :: "string \<Rightarrow> string" where
  "remove_extension s =
     (case dropWhile ext_char (rev s) of
        [] \<Rightarrow> s
      | c # r \<Rightarrow> if c = CHR ''.'' \<and> takeWhile ext_char (rev s) \<noteq> [] then rev r else s)"

definition alnum :: "char \<Rightarrow> bool" where
  "alnum c =
     (((97::nat) \<le> of_char c \<and> of_char c \<le> (122::nat))
      \<or> ((48::nat) \<le> of_char c \<and> of_char c \<le> (57::nat)))"

text \<open>\<^verbatim>\<open>.replace(/[^a-z0-9]+/g, '-')\<close>; \<open>in_run\<close> says that the run's dash is already written.\<close>

fun dash_runs :: "bool \<Rightarrow> string \<Rightarrow> string" where
  "dash_runs in_run [] = []"
| "dash_runs in_run (c # cs) =
     (if alnum c then c # dash_runs False cs
      else if in_run then dash_runs True cs
      else CHR ''-'' # dash_runs True cs)"

text \<open>\<^verbatim>\<open>.replace(/^-+|-+$/g, '')\<close>\<close>

definition trim_dashes :: "string \<Rightarrow> string" where
  "trim_dashes s =
     rev (dropWhile (\<lambda>c. c = CHR ''-'') (rev (dropWhile (\<lambda>c. c = CHR ''-'') s)))"

definition generateSlug :: "(string \<Rightarrow> string) \<Rightarrow> string \<Rightarrow> string" where
  "generateSlug lc filename =
     trim_dashes (dash_runs False (remove_extension (toLowerCase lc filename)))"

text \<open>Decimal text of a number, for \<^verbatim>\<open>`${Date.now()}-...`\<close> and \<^verbatim>\<open>String(n)\<close>.\<close>

fun show_nat :: "nat \<Rightarrow> string" where
  "show_nat n =
     (if n < 10 then [char_of (48 + n)] else show_nat (n div 10) @ [char_of (48 + n mod 10)])"

definition show_int :: "int \<Rightarrow> string" where
  "show_int i = (if i < 0 then ''-'' @ show_nat (nat (- i)) else show_nat (nat i))"

text \<open>
  What the callback of \<^verbatim>\<open>form.parse\<close> receives and reads: the parse error, the first
  file of the field \<^verbatim>\<open>image\<close> with its \<^verbatim>\<open>originalFilename\<close> (\<^verbatim>\<open>string | null\<close>), the
  fields \<^verbatim>\<open>title\<close> and \<^verbatim>\<open>description\<close>, the outcome of moving and measuring the file
  (\<^verbatim>\<open>metadata.width\<close>, \<^verbatim>\<open>metadata.height\<close>, \<^verbatim>\<open>stats.size\<close>, or the exception of
  \<^verbatim>\<open>renameSync\<close>, \<^verbatim>\<open>sharp\<close> or \<^verbatim>\<open>statSync\<close>), and \<^verbatim>\<open>Date.now()\<close>.
\<close>

record uploaded_file =
  originalFilename :: "string option"

record upload =
  parse_err :: bool
  image_file :: "uploaded_file option"
  field_title :: "string option"
  field_description :: "string option"
  processed :: "error + (int option \<times> int option \<times> int)"
  time_ms :: nat

text \<open>\<^verbatim>\<open>`${Date.now()}-${file.originalFilename}`\<close>, in which \<^verbatim>\<open>null\<close> reads \<open>null\<close>.\<close>

definition upload_filename :: "nat \<Rightarrow> uploaded_file \<Rightarrow> string" where
  "upload_filename t fl =
     show_nat t @ ''-'' @ (case originalFilename fl of None \<Rightarrow> ''null'' | Some s \<Rightarrow> s)"

text \<open>\<^verbatim>\<open>generateSlug(file.originalFilename || filename)\<close>\<close>

definition upload_slug :: "(string \<Rightarrow> string) \<Rightarrow> nat \<Rightarrow> uploaded_file \<Rightarrow> string" where
  "upload_slug lc t fl =
     generateSlug lc (or_empty (or_else (originalFilename fl) (Some (upload_filename t fl))))"

definition upload_title :: "string option \<Rightarrow> uploaded_file \<Rightarrow> string" where
  "upload_title t fl =
     or_empty (or_else (or_else t (map_option remove_extension (originalFilename fl)))
                 (Some ''Untitled''))"

text \<open>
  The object \<^verbatim>\<open>imageData\<close> that the callback hands to \<^verbatim>\<open>createImage\<close>, which sets the
  three fields the object does not have.
\<close>

definition imageData ::
  "(string \<Rightarrow> string) \<Rightarrow> upload \<Rightarrow> uploaded_file \<Rightarrow> int option \<Rightarrow> int option \<Rightarrow> int \<Rightarrow> image"
where
  "imageData lc u fl w h sz =
     \<lparr>img_id = 0,
      slug = upload_slug lc (time_ms u) fl,
      title = upload_title (field_title u) fl,
      description = or_null (field_description u),
      image_url = ''/uploads/'' @ upload_filename (time_ms u) fl,
      thumbnail_url = Some (''/uploads/thumb-'' @ upload_filename (time_ms u) fl),
      video_url = None,
      width = (case w of None \<Rightarrow> 0 | Some v \<Rightarrow> v),
      height = (case h of None \<Rightarrow> 0 | Some v \<Rightarrow> v),
      file_size = Some sz,
      order_index = 0,
      created_at = [],
      updated_at = [],
      source = None,
      locket_user_id = None,
      caption = None,
      overlays = None\<rparr>"

text \<open>
  The callback, as far as the store goes. It runs after the handler has answered (see
  below), so none of its own answers (500, 400, 201) reaches the client: what remains of
  it is the file. A parse error, a missing file and an exception before or in
  \<^verbatim>\<open>createImage\<close> leave the file as it was.
\<close>

definition upload_callback :: "(string \<Rightarrow> string) \<Rightarrow> string \<Rightarrow> upload \<Rightarrow> dbfile \<Rightarrow> dbfile" where
  "upload_callback lc ts u f =
     (if parse_err u then f
      else
        (case image_file u of
           None \<Rightarrow> f
         | Some fl \<Rightarrow>
             (case processed u of
                Inl e \<Rightarrow> f
              | Inr (w, h, sz) \<Rightarrow>
                  (case createImage ts (imageData lc u fl w h sz) f of
                     Inl e \<Rightarrow> f
                   | Inr (newImage, f') \<Rightarrow> f'))))"

text \<open>
  The handler on a POST request. It first compares the \<^verbatim>\<open>authorization\<close> header with
  \<^verbatim>\<open>`Bearer ${process.env.ADMIN_PASSWORD || 'admin123'}`\<close> and answers 401 when they
  differ. The POST branch then hands the request to \<^verbatim>\<open>form.parse\<close> with the callback
  and neither returns nor waits, so control reaches the last line of the handler and the
  answer is 405, \<open>Method not allowed\<close>; the callback runs afterwards.
\<close>

definition admin_post ::
  "string option \<Rightarrow> string option \<Rightarrow> (string \<Rightarrow> string) \<Rightarrow> string \<Rightarrow> upload \<Rightarrow> dbfile
     \<Rightarrow> api_response \<times> dbfile"
where
  "admin_post authHeader ADMIN_PASSWORD lc ts u f =
     (let adminPassword = or_empty (or_else ADMIN_PASSWORD (Some ''admin123''))
      in if \<not> truthy authHeader \<or> authHeader \<noteq> Some (''Bearer '' @ adminPassword) then
           (\<lparr>a_status = 401, a_body = Error_body ''Unauthorized''\<rparr>, f)
         else
           (\<lparr>a_status = 405, a_body = Error_body ''Method not allowed''\<rparr>,
            upload_callback lc ts u f))"

section \<open>Sequences of store operations\<close>

text \<open>
  The operations that write the collection: insert, update and delete of lib/db.ts and
  the sync handler. A step returns the identifiers it assigned, in the order of
  assignment, and the file afterwards; an operation that throws leaves the file as it was.
\<close>

datatype operation =
    Insert string image
  | Update string int image_patch
  | Delete int
  | Sync clock locket_request "error + moments_result"

definition file_images :: "dbfile \<Rightarrow> image list" where
  "file_images f =
     (case f of Stored db \<Rightarrow> images db | StoredArray xs \<Rightarrow> xs | _ \<Rightarrow> [])"

fun step :: "operation \<Rightarrow> dbfile \<Rightarrow> int list \<times> dbfile" where
  "step (Insert ts data) f =
     (case createImage ts data f of Inl e \<Rightarrow> ([], f) | Inr (img, f') \<Rightarrow> ([img_id img], f'))"
| "step (Update ts i data) f =
     (case updateImage ts i data f of Inl e \<Rightarrow> ([], f) | Inr (r, f') \<Rightarrow> ([], f'))"
| "step (Delete i) f =
     (case deleteImage i f of Inl e \<Rightarrow> ([], f) | Inr (r, f') \<Rightarrow> ([], f'))"
| "step (Sync c req fetched) f =
     (let f' = snd (sync_handler c req fetched f)
      in (map img_id (drop (length (file_images f)) (file_images f')), f'))"

fun run :: "operation list \<Rightarrow> dbfile \<Rightarrow> int list \<times> dbfile" where
  "run [] f = ([], f)"
| "run (x # xs) f =
     (let (ids, f') = step x f; (ids', f'') = run xs f' in (ids @ ids', f''))"

text \<open>
  An operation brings no slug that another record already carries: an insert whose slug
  is new, an update that keeps the slug or moves it to one no other record has. Delete
  and sync never need the check.
\<close>

fun slug_fresh :: "operation \<Rightarrow> dbfile \<Rightarrow> bool" where
  "slug_fresh (Insert ts data) f = (slug data \<notin> set (map slug (file_images f)))"
| "slug_fresh (Update ts i data) f =
     (case p_slug data of
        None \<Rightarrow> True
      | Some s \<Rightarrow> s \<notin> set (map slug (filter (\<lambda>img. img_id img \<noteq> i) (file_images f))))"
| "slug_fresh (Delete i) f = True"
| "slug_fresh (Sync c req fetched) f = True"

fun all_slug_fresh :: "operation list \<Rightarrow> dbfile \<Rightarrow> bool" where
  "all_slug_fresh [] f = True"
| "all_slug_fresh (x # xs) f = (slug_fresh x f \<and> all_slug_fresh xs (snd (step x f)))"

text \<open>
  The most identifiers an operation can ask for: one for an insert, one for each listed
  moment for a sync.
\<close>

fun demand :: "operation \<Rightarrow> nat" where
  "demand (Insert ts data) = 1"
| "demand (Sync c req fetched) =
     (case fetched of
        Inl e \<Rightarrow> 0
      | Inr mr \<Rightarrow> (case mr_data mr of None \<Rightarrow> 0 | Some data \<Rightarrow> length data))"
| "demand (Update ts i data) = 0"
| "demand (Delete i) = 0"

text \<open>
  The files the operations keep to: no file yet, or a database whose identifiers are
  pairwise distinct and all below a positive \<^verbatim>\<open>nextId\<close>.
\<close>

fun store_ok :: "dbfile \<Rightarrow> bool" where
  "store_ok Missing = True"
| "store_ok (Stored db) =
     (0 < nextId db \<and> list_all (\<lambda>img. img_id img < nextId db) (images db)
      \<and> distinct (map img_id (images db)))"
| "store_ok _ = False"

definition next_of :: "dbfile \<Rightarrow> int" where
  "next_of f = (case f of Stored db \<Rightarrow> nextId db | _ \<Rightarrow> 1)"

section \<open>The moments endpoint that merges two listings (mergeMoments)\<close>

text \<open>
  One of the two moments endpoints of the repository builds its listing with
  \<^verbatim>\<open>mergeMoments\<close> from the entries of the Dio service (\<^verbatim>\<open>m: any\<close>) and a map from moment
  id to the URLs known to Firebase. A field of an entry is \<open>None\<close> when it is absent.
  The endpoint returns the result as it is, without a filter.
\<close>

record dio_moment =
  d_id :: "string option"
  d_user :: "string option"
  d_thumbnailUrl :: "string option"
  d_thumbnail_url :: "string option"
  d_imageUrl :: "string option"
  d_image_url :: "string option"
  d_photo_url :: "string option"
  d_videoUrl :: "string option"
  d_video_url :: "string option"
  d_caption :: "string option"
  d_overlays :: "overlays option"
  d_createTime :: "int option"
  d_date :: "string option"

record firebase_entry =
  fb_image_url :: "string option"
  fb_thumbnail_url :: "string option"
  fb_video_url :: "string option"

definition merge_moment :: "(string \<rightharpoonup> firebase_entry) \<Rightarrow> string \<Rightarrow> dio_moment \<Rightarrow> moment" where
  "merge_moment firebaseMap localId m =
     (let i = or_empty (or_else (d_id m) (Some []));
          fb = (case firebaseMap i of
                  Some e \<Rightarrow> e
                | None \<Rightarrow> \<lparr>fb_image_url = None, fb_thumbnail_url = None, fb_video_url = None\<rparr>);
          thumbnailUrl' = or_empty (or_else (or_else (or_else (d_thumbnailUrl m) (d_thumbnail_url m))
                                       (fb_thumbnail_url fb)) (Some []));
          fullResUrl = or_empty (or_else (or_else (or_else (or_else (d_imageUrl m) (d_image_url m))
                                    (d_photo_url m)) (fb_image_url fb)) (Some []));
          videoUrl' = or_null (or_else (or_else (d_videoUrl m) (d_video_url m)) (fb_video_url fb))
      in \<lparr>m_id = i,
          m_user = or_empty (or_else (d_user m) (Some localId)),
          imageUrl = (if fullResUrl \<noteq> [] then fullResUrl else thumbnailUrl'),
          thumbnailUrl = (if thumbnailUrl' \<noteq> [] then thumbnailUrl' else fullResUrl),
          videoUrl = videoUrl',
          m_caption = or_null (d_caption m),
          m_overlays = d_overlays m,
          createTime = (case d_createTime m of Some t \<Rightarrow> t | None \<Rightarrow> 0),
          date = or_empty (or_else (d_date m) (Some []))\<rparr>)"

definition mergeMoments ::
  "dio_moment list \<Rightarrow> (string \<rightharpoonup> firebase_entry) \<Rightarrow> string \<Rightarrow> moment list" where
  "mergeMoments dioMoments firebaseMap localId = map (merge_moment firebaseMap localId) dioMoments"

text \<open>\<^verbatim>\<open>Array.prototype.map\<close> with a callback that may throw.\<close>

fun map_throwing :: "('a \<Rightarrow> error + 'b) \<Rightarrow> 'a list \<Rightarrow> error + 'b list" where
  "map_throwing g [] = Inr []"
| "map_throwing g (x # xs) =
     (case g x of
        Inl e \<Rightarrow> Inl e
      | Inr y \<Rightarrow> (case map_throwing g xs of Inl e \<Rightarrow> Inl e | Inr ys \<Rightarrow> Inr (y # ys)))"

section \<open>The moments endpoint that reads Firebase alone (fetchLocketMoments)\<close>

text \<open>
  The other moments endpoint converts the entries of \<^verbatim>\<open>getLatestMomentV2\<close> itself. A
  time field of an entry is a number, a Firestore timestamp object (with or without
  \<^verbatim>\<open>_seconds\<close>) or a text.
\<close>

datatype js_time = Number int | Firestore "int option" | Text string

record firebase_moment =
  f_canonical_uid :: "string option"
  f_id :: "string option"
  f_moment_uid :: "string option"
  f_thumbnail_url :: "string option"
  f_thumbnailUrl :: "string option"
  f_image_url :: "string option"
  f_photo_url :: "string option"
  f_imageUrl :: "string option"
  f_photoUrl :: "string option"
  f_video_url :: "string option"
  f_videoUrl :: "string option"
  f_caption :: "string option"
  f_overlays :: "overlays option"
  f_user :: "string option"
  f_sender_uid :: "string option"
  f_created_at :: "js_time option"
  f_createTime :: "js_time option"
  f_date :: "string option"

definition time_truthy :: "js_time option \<Rightarrow> bool" where
  "time_truthy v =
     (case v of None \<Rightarrow> False | Some (Number n) \<Rightarrow> n \<noteq> 0 | Some (Firestore s) \<Rightarrow> True
      | Some (Text s) \<Rightarrow> s \<noteq> [])"

text \<open>
  The creation time in seconds; \<open>None\<close> is \<^verbatim>\<open>NaN\<close>, the result for a text that is no
  date. \<open>parse\<close> is \<^verbatim>\<open>new Date(text).getTime()\<close>.
\<close>

definition create_time :: "(string \<Rightarrow> int option) \<Rightarrow> firebase_moment \<Rightarrow> int option" where
  "create_time parse m =
     (if time_truthy (f_created_at m) then
        (case f_created_at m of
           Some (Number n) \<Rightarrow> Some n
         | Some (Firestore (Some s)) \<Rightarrow> Some s
         | Some (Text s) \<Rightarrow> map_option (\<lambda>t. t div 1000) (parse s)
         | _ \<Rightarrow> Some 0)
      else if time_truthy (f_createTime m) then
        (case f_createTime m of Some (Number n) \<Rightarrow> Some n | _ \<Rightarrow> Some 0)
      else if truthy (f_date m) then map_option (\<lambda>t. t div 1000) (parse (or_empty (f_date m)))
      else Some 0)"

text \<open>
  The callback of \<^verbatim>\<open>map\<close>: \<^verbatim>\<open>null\<close> for an entry without id; the date text is computed
  for a creation time that is neither 0 nor \<^verbatim>\<open>NaN\<close>, and computing it may throw. The
  flag beside the moment says that its creation time is \<^verbatim>\<open>NaN\<close>, which the JSON answer
  turns into \<^verbatim>\<open>null\<close>; sync and reset treat that like 0.
\<close>

definition fetch_moment ::
  "clock \<Rightarrow> (string \<Rightarrow> int option) \<Rightarrow> string \<Rightarrow> firebase_moment \<Rightarrow> error + (moment \<times> bool) option"
where
  "fetch_moment c parse localId m =
     (let i = or_empty (or_else (or_else (or_else (f_canonical_uid m) (f_id m)) (f_moment_uid m))
                          (Some []))
      in if i = [] then Inr None
         else
           let thumbnailUrl' = or_empty (or_else (or_else (f_thumbnail_url m) (f_thumbnailUrl m))
                                           (Some []));
               fullResUrl = or_empty (or_else (or_else (or_else (or_else (f_image_url m)
                              (f_photo_url m)) (f_imageUrl m)) (f_photoUrl m)) (Some []));
               ct = create_time parse m
           in (case (case ct of
                       Some t \<Rightarrow> if t \<noteq> 0 then toISOString c (t * 1000) else Inr []
                     | None \<Rightarrow> Inr []) of
                 Inl e \<Rightarrow> Inl e
               | Inr dateStr' \<Rightarrow>
                   Inr (Some (\<lparr>m_id = i,
                               m_user = or_empty (or_else (or_else (f_user m) (f_sender_uid m))
                                                    (Some localId)),
                               imageUrl = (if fullResUrl \<noteq> [] then fullResUrl else thumbnailUrl'),
                               thumbnailUrl =
                                 (if thumbnailUrl' \<noteq> [] then thumbnailUrl' else fullResUrl),
                               videoUrl = or_null (or_else (f_video_url m) (f_videoUrl m)),
                               m_caption = or_null (f_caption m),
                               m_overlays = f_overlays m,
                               createTime = (case ct of Some t \<Rightarrow> t | None \<Rightarrow> 0),
                               date = dateStr'\<rparr>, ct = None))))"

text \<open>\<^verbatim>\<open>(a, b) => b.createTime - a.createTime\<close>, which is \<^verbatim>\<open>NaN\<close>, taken as 0, beside a \<^verbatim>\<open>NaN\<close>.\<close>

definition compare_createTime :: "moment \<times> bool \<Rightarrow> moment \<times> bool \<Rightarrow> int" where
  "compare_createTime a b =
     (if snd a \<or> snd b then 0 else createTime (fst b) - createTime (fst a))"

text \<open>
  From the entries to the listing: convert, drop the \<^verbatim>\<open>null\<close>s and the moments without
  any URL, sort by creation time, newest first.
\<close>

definition fetchLocketMoments ::
  "clock \<Rightarrow> (string \<Rightarrow> int option) \<Rightarrow> string \<Rightarrow> firebase_moment list \<Rightarrow> error + moment list"
where
  "fetchLocketMoments c parse localId momentEntries =
     (case map_throwing (fetch_moment c parse localId) momentEntries of
        Inl e \<Rightarrow> Inl e
      | Inr ms \<Rightarrow>
          Inr (map fst (array_sort compare_createTime
                          (filter (\<lambda>p. has_url (fst p)) (filter_Boolean ms)))))"

section \<open>The frontend reader (lib/images.ts)\<close>

text \<open>
  The frontend reads the same file defensively, whatever its shape, so here the file's
  content is a JSON value. \<open>JUndefined\<close> never comes out of \<^verbatim>\<open>JSON.parse\<close>; it is the
  value of a property that is not there. Numbers are integers in the model (their text
  is the decimal one, as \<^verbatim>\<open>String\<close> gives it below 1e21).
\<close>

datatype jsval =
    JUndefined
  | JNull
  | JBool bool
  | JNum int
  | JStr string
  | JArr "jsval list"
  | JObj "(string \<times> jsval) list"

fun js_truthy :: "jsval \<Rightarrow> bool" where
  "js_truthy JUndefined = False"
| "js_truthy JNull = False"
| "js_truthy (JBool b) = b"
| "js_truthy (JNum n) = (n \<noteq> 0)"
| "js_truthy (JStr s) = (s \<noteq> [])"
| "js_truthy (JArr xs) = True"
| "js_truthy (JObj kvs) = True"

definition js_or :: "jsval \<Rightarrow> jsval \<Rightarrow> jsval" where
  "js_or a b = (if js_truthy a then a else b)"

text \<open>
  Reading a property: a \<^verbatim>\<open>TypeError\<close> on \<^verbatim>\<open>null\<close> and \<^verbatim>\<open>undefined\<close>; on an object the
  value of the key (the last one, if the JSON text repeats it); \<^verbatim>\<open>undefined\<close> otherwise,
  since no primitive or array has a property of one of the names the reader asks for.
\<close>

fun js_get :: "jsval \<Rightarrow> string \<Rightarrow> error + jsval" where
  "js_get JUndefined k = Inl TypeError"
| "js_get JNull k = Inl TypeError"
| "js_get (JObj kvs) k = Inr (case map_of (rev kvs) k of Some v \<Rightarrow> v | None \<Rightarrow> JUndefined)"
| "js_get v k = Inr JUndefined"

definition js_prop :: "jsval \<Rightarrow> string \<Rightarrow> jsval" where
  "js_prop v k = (case js_get v k of Inr x \<Rightarrow> x | Inl e \<Rightarrow> JUndefined)"

text \<open>\<^verbatim>\<open>String(v)\<close>; an array is the texts of its elements joined by commas.\<close>

fun js_String :: "jsval \<Rightarrow> string" and js_join :: "jsval list \<Rightarrow> string" where
  "js_String JUndefined = ''undefined''"
| "js_String JNull = ''null''"
| "js_String (JBool b) = (if b then ''true'' else ''false'')"
| "js_String (JNum n) = show_int n"
| "js_String (JStr s) = s"
| "js_String (JArr xs) = js_join xs"
| "js_String (JObj kvs) = ''[object Object]''"
| "js_join [] = []"
| "js_join (v # vs) =
     (if v = JUndefined \<or> v = JNull then [] else js_String v)
     @ (if vs = [] then [] else '','' @ js_join vs)"

text \<open>\<^verbatim>\<open>type ImageData\<close> of lib/images.ts, with the values as the reader computes them.\<close>

record gallery_image =
  g_id :: string
  g_slug :: jsval
  g_image_url :: jsval
  g_thumbnail_url :: jsval
  g_video_url :: jsval
  g_title :: jsval
  g_description :: jsval
  g_caption :: jsval
  g_width :: jsval
  g_height :: jsval
  g_created_at :: jsval
  g_order_index :: jsval
  g_source :: jsval
  g_overlays :: jsval

text \<open>
  The runtime of the reader: the current time as ISO text and
  \<^verbatim>\<open>new Date(v).getTime()\<close>, where \<open>None\<close> is \<^verbatim>\<open>NaN\<close>.
\<close>

record gallery_env =
  g_now :: string
  getTime :: "jsval \<Rightarrow> int option"

text \<open>The callback of \<^verbatim>\<open>map\<close>; its first property read throws on \<^verbatim>\<open>null\<close>.\<close>

definition to_gallery :: "gallery_env \<Rightarrow> jsval \<Rightarrow> error + gallery_image" where
  "to_gallery env img =
     (case js_get img ''id'' of
        Inl e \<Rightarrow> Inl e
      | Inr i \<Rightarrow>
          Inr \<lparr>g_id = js_String (js_or (js_or i (js_prop img ''slug'')) (JStr [])),
               g_slug = js_or (js_prop img ''slug'') (JStr []),
               g_image_url = js_or (js_or (js_prop img ''image_url'') (js_prop img ''thumbnailUrl'')) (JStr []),
               g_thumbnail_url =
                 js_or (js_or (js_or (js_prop img ''thumbnail_url'') (js_prop img ''thumbnailUrl''))
                          (js_prop img ''image_url'')) (JStr []),
               g_video_url = js_or (js_or (js_prop img ''video_url'') (js_prop img ''videoUrl'')) JUndefined,
               g_title = js_or (js_or (js_prop img ''title'') (js_prop img ''caption'')) (JStr []),
               g_description = js_or (js_prop img ''description'') (JStr []),
               g_caption = js_or (js_or (js_prop img ''caption'') (js_prop img ''title'')) (JStr []),
               g_width = js_or (js_prop img ''width'') (JNum 800),
               g_height = js_or (js_prop img ''height'') (JNum 800),
               g_created_at = js_or (js_prop img ''created_at'') (JStr (g_now env)),
               g_order_index = js_or (js_prop img ''order_index'') (JNum 0),
               g_source = js_or (js_prop img ''source'') (JStr ''locket''),
               g_overlays = js_or (js_prop img ''overlays'') JNull\<rparr>)"

text \<open>
  The comparator \<^verbatim>\<open>new Date(b.created_at).getTime() - new Date(a.created_at).getTime()\<close>.
  Its result is \<^verbatim>\<open>NaN\<close> when either date is invalid, which the sort treats as 0. With
  invalid dates the comparator is no consistent ordering and the order of the result is
  left to the implementation; the model keeps the insertion order then.
\<close>

definition compare_created :: "gallery_env \<Rightarrow> gallery_image \<Rightarrow> gallery_image \<Rightarrow> int" where
  "compare_created env a b =
     (case (getTime env (g_created_at b), getTime env (g_created_at a)) of
        (Some tb, Some ta) \<Rightarrow> tb - ta
      | _ \<Rightarrow> 0)"

text \<open>
  The file as the reader meets it: absent, present but unreadable, text that is no JSON,
  or a JSON value.
\<close>

datatype json_file = No_file | Read_fails | Bad_json | Json jsval

text \<open>\<^verbatim>\<open>Array.isArray(db) ? db : (db.images || [])\<close>\<close>

definition images_of_db :: "jsval \<Rightarrow> error + jsval" where
  "images_of_db db =
     (case db of
        JArr xs \<Rightarrow> Inr (JArr xs)
      | _ \<Rightarrow> (case js_get db ''images'' of Inl e \<Rightarrow> Inl e | Inr v \<Rightarrow> Inr (js_or v (JArr []))))"

text \<open>
  The body of the \<^verbatim>\<open>try\<close> block. Without a file it falls through to the final
  \<^verbatim>\<open>return []\<close>. Calling \<^verbatim>\<open>map\<close> on a value that is no array is a \<^verbatim>\<open>TypeError\<close>.
\<close>

definition gallery_try :: "gallery_env \<Rightarrow> json_file \<Rightarrow> error + gallery_image list" where
  "gallery_try env f =
     (case f of
        No_file \<Rightarrow> Inr []
      | Read_fails \<Rightarrow> Inl ReadError
      | Bad_json \<Rightarrow> Inl SyntaxError
      | Json db \<Rightarrow>
          (case images_of_db db of
             Inl e \<Rightarrow> Inl e
           | Inr (JArr xs) \<Rightarrow>
               (case map_throwing (to_gallery env) xs of
                  Inl e \<Rightarrow> Inl e
                | Inr ys \<Rightarrow>
                    Inr (array_sort (compare_created env)
                           (filter (\<lambda>img. js_truthy (g_image_url img)) ys)))
           | Inr _ \<Rightarrow> Inl TypeError))"

text \<open>\<^verbatim>\<open>getAllImages\<close> of lib/images.ts: the \<^verbatim>\<open>catch\<close> logs and the function returns \<^verbatim>\<open>[]\<close>.\<close>

definition gallery_getAllImages :: "gallery_env \<Rightarrow> json_file \<Rightarrow> gallery_image list" where
  "gallery_getAllImages env f = (case gallery_try env f of Inl e \<Rightarrow> [] | Inr imgs \<Rightarrow> imgs)"

section \<open>Auxiliary predicates and sample data\<close>

text \<open>
  A moment whose date the handlers can compute: it brings its own date text, or its
  \<^verbatim>\<open>createTime\<close> is a time value that \<^verbatim>\<open>toISOString\<close> accepts.
\<close>

definition date_ok :: "moment \<Rightarrow> bool" where
  "date_ok m = (date m \<noteq> [] \<or>
     (- 8640000000000000 \<le> createTime m * 1000 \<and> createTime m * 1000 \<le> 8640000000000000))"

text \<open>
  Abbreviations for the analysis of the sync handler: the state in which its \<^verbatim>\<open>map\<close>
  starts on a file, the user id it writes into the records, and the conditions under
  which a request gets as far as converting moments.
\<close>

definition sync_start :: "dbfile \<Rightarrow> sync_state" where
  "sync_start f = \<lparr>existingSlugs = set (map slug (file_images f)),
                   s_nextId = snd (load_existing f), syncedCount = 0, skippedCount = 0\<rparr>"

definition user_of :: "locket_request \<Rightarrow> string" where
  "user_of req = (case or_else (body_localId req) (header_uid req) of Some u \<Rightarrow> u | None \<Rightarrow> [])"

definition accepted :: "locket_request \<Rightarrow> error + moments_result \<Rightarrow> moment list \<Rightarrow> bool" where
  "accepted req fetched data =
     (http_method req = ''POST''
      \<and> truthy (or_else (body_token req) (header_token req))
      \<and> truthy (or_else (body_localId req) (header_uid req))
      \<and> (case fetched of Inl e \<Rightarrow> False
          | Inr mr \<Rightarrow> mr_success mr \<and> mr_data mr = Some data))"

text \<open>Concrete values on which the theorems below are exercised.\<close>

definition sample_image :: "int \<Rightarrow> string \<Rightarrow> int \<Rightarrow> image" where
  "sample_image i s k =
     \<lparr>img_id = i, slug = s, title = ''Title'', description = None,
      image_url = ''/uploads/x.jpg'', thumbnail_url = None, video_url = None,
      width = 800, height = 600, file_size = None, order_index = k,
      created_at = ''2024-01-01'', updated_at = ''2024-01-01'', source = None,
      locket_user_id = None, caption = None, overlays = None\<rparr>"

definition sample_db :: database where
  "sample_db = \<lparr>images = [sample_image 1 ''a'' 0, sample_image 2 ''b'' 5], nextId = 3\<rparr>"

definition sample_patch :: image_patch where
  "sample_patch =
     \<lparr>p_id = Some 9, p_slug = None, p_title = Some ''New'', p_description = None,
      p_image_url = None, p_thumbnail_url = None, p_width = None, p_height = None,
      p_file_size = None, p_order_index = None, p_created_at = None, p_updated_at = None\<rparr>"

definition sample_clock :: clock where
  "sample_clock = \<lparr>now = ''2024-06-01'', iso = show_int, locale_vi = show_int\<rparr>"

definition sample_request :: locket_request where
  "sample_request =
     \<lparr>http_method = ''POST'', body_token = Some ''tok'', body_localId = None,
      header_token = None, header_uid = Some ''uid''\<rparr>"

definition anonymous_request :: locket_request where
  "anonymous_request =
     \<lparr>http_method = ''POST'', body_token = Some ''tok'', body_localId = None,
      header_token = None, header_uid = None\<rparr>"

definition sample_moment :: "string \<Rightarrow> string \<Rightarrow> moment" where
  "sample_moment i url =
     \<lparr>m_id = i, m_user = ''uid'', imageUrl = url, thumbnailUrl = url, videoUrl = None,
      m_caption = None, m_overlays = None, createTime = 1700000000, date = ''2023-11-14''\<rparr>"

definition listing :: "moment list \<Rightarrow> moments_result" where
  "listing ms = \<lparr>mr_success = True, mr_data = Some ms, mr_message = None\<rparr>"

definition get_request :: "query_value \<Rightarrow> api_request" where
  "get_request q = \<lparr>a_method = ''GET'', q_slug = q\<rparr>"

definition sample_moments :: "moment list" where
  "sample_moments = [sample_moment ''m1'' ''u1'', sample_moment ''m1'' ''u1'',
                     sample_moment ''m2'' [], sample_moment ''m3'' ''u3'']"

definition sample_ops :: "operation list" where
  "sample_ops =
     [Insert ''2024-06-01'' (sample_image 0 ''x'' 0),
      Sync sample_clock sample_request (Inr (listing sample_moments)),
      Delete 1,
      Update ''2024-06-02'' 3 sample_patch,
      Insert ''2024-06-03'' (sample_image 0 ''y'' 0)]"

definition dup_db :: database where
  "dup_db = \<lparr>images = [sample_image 1 ''a'' 0, sample_image 2 ''a'' 0], nextId = 3\<rparr>"

definition bare_dio :: dio_moment where
  "bare_dio =
     \<lparr>d_id = Some ''m1'', d_user = None, d_thumbnailUrl = None, d_thumbnail_url = None,
      d_imageUrl = None, d_image_url = None, d_photo_url = None, d_videoUrl = None,
      d_video_url = None, d_caption = None, d_overlays = None, d_createTime = Some 1700000000,
      d_date = Some ''2023-11-14''\<rparr>"

definition merged_listing :: "moment list" where
  "merged_listing = mergeMoments [bare_dio] Map.empty ''uid''"

definition uploaded :: "string option \<Rightarrow> upload" where
  "uploaded name =
     \<lparr>parse_err = False, image_file = Some \<lparr>originalFilename = name\<rparr>,
      field_title = None, field_description = None,
      processed = Inr (Some 1200, Some 800, 34567), time_ms = 1717200000000\<rparr>"

definition sample_env :: gallery_env where
  "sample_env = \<lparr>g_now = ''2024-06-01'', getTime = (\<lambda>v. case v of JNum n \<Rightarrow> Some n | _ \<Rightarrow> None)\<rparr>"

definition sample_json :: jsval where
  "sample_json =
     JObj [(''images'',
            JArr [JObj [(''id'', JNum 1), (''slug'', JStr ''a''), (''image_url'', JStr ''/a.jpg''),
                        (''created_at'', JNum 10)],
                  JObj [(''id'', JNum 2), (''slug'', JStr ''b''), (''image_url'', JStr [])],
                  JObj [(''id'', JNum 3), (''thumbnailUrl'', JStr ''/c.jpg''),
                        (''created_at'', JNum 30)]]),
           (''nextId'', JNum 4)]"

section \<open>Properties of the record store\<close>

subsection \<open>Sorting\<close>

lemma sort_insert_mset: "mset (sort_insert cmp x xs) = add_mset x (mset xs)"
  by (induction xs) auto

lemma array_sort_mset: "mset (array_sort cmp xs) = mset xs"
  unfolding array_sort_def by (induction xs) (auto simp: sort_insert_mset)

lemma sort_insert_set: "set (sort_insert cmp x xs) = insert x (set xs)"
  by (induction xs) auto

lemma array_sort_set: "set (array_sort cmp xs) = set xs"
  unfolding array_sort_def by (induction xs) (auto simp: sort_insert_set)

lemma sort_insert_sorted:
  assumes total: "\<And>a b. \<not> cmp a b \<le> 0 \<Longrightarrow> cmp b a \<le> 0"
    and trans: "\<And>a b c. cmp a b \<le> 0 \<Longrightarrow> cmp b c \<le> 0 \<Longrightarrow> cmp a c \<le> 0"
  shows "sorted_wrt (\<lambda>a b. cmp a b \<le> 0) xs \<Longrightarrow> sorted_wrt (\<lambda>a b. cmp a b \<le> 0) (sort_insert cmp x xs)"
proof (induction xs)
  case Nil
  then show ?case by simp
next
  case (Cons y ys)
  show ?case
  proof (cases "cmp x y \<le> 0")
    case True
    with Cons.prems show ?thesis by (auto intro: trans)
  next
    case False
    then have "cmp y x \<le> 0" by (rule total)
    with False Cons show ?thesis by (auto simp: sort_insert_set)
  qed
qed

lemma array_sort_sorted:
  assumes total: "\<And>a b. \<not> cmp a b \<le> 0 \<Longrightarrow> cmp b a \<le> 0"
    and trans: "\<And>a b c. cmp a b \<le> 0 \<Longrightarrow> cmp b c \<le> 0 \<Longrightarrow> cmp a c \<le> 0"
  shows "sorted_wrt (\<lambda>a b. cmp a b \<le> 0) (array_sort cmp xs)"
  unfolding array_sort_def
  by (induction xs) (auto intro: sort_insert_sorted [OF total trans])

lemma compare_images_le:
  "compare_images a b \<le> 0 \<longleftrightarrow>
     order_index b < order_index a \<or> (order_index a = order_index b \<and> img_id b \<le> img_id a)"
  unfolding compare_images_def by auto

lemma compare_images_sorted:
  "sorted_wrt (\<lambda>a b. compare_images a b \<le> 0) (array_sort compare_images xs)"
  by (rule array_sort_sorted) (auto simp: compare_images_le)

text \<open>
  Claim C6. For every stored collection, list-all of the record store returns all records
  (the same records with the same multiplicities), sorted by order index descending with
  ties broken by id descending; the file is left as it was.
\<close>

theorem getAllImages_sorted:
  "\<exists>xs. getAllImages (Stored db) = Inr (xs, Stored db) \<and> mset xs = mset (images db)
     \<and> sorted_wrt (\<lambda>a b. order_index b < order_index a
                          \<or> (order_index a = order_index b \<and> img_id b \<le> img_id a)) xs"
  using compare_images_sorted [of "images db"]
  by (simp add: getAllImages_def array_sort_mset compare_images_le)

lemma getAllImages_sample:
  "getAllImages (Stored sample_db)
     = Inr ([sample_image 2 ''b'' 5, sample_image 1 ''a'' 0], Stored sample_db)"
  by (simp add: getAllImages_def sample_db_def sample_image_def array_sort_def compare_images_def)

subsection \<open>Update\<close>

lemma findIndex_Some:
  "findIndex P xs = Some k \<Longrightarrow> k < length xs \<and> P (xs ! k) \<and> find P xs = Some (xs ! k)"
  by (induction xs arbitrary: k) (auto split: if_splits)

lemma findIndex_None: "findIndex P xs = None \<longleftrightarrow> (\<forall>x\<in>set xs. \<not> P x)"
  by (induction xs) auto

lemma find_findIndex:
  "find P xs = Some x \<Longrightarrow> \<exists>k. findIndex P xs = Some k \<and> k < length xs \<and> xs ! k = x"
  by (induction xs) (auto split: if_splits)

text \<open>
  Claim C4. For every record present in the store (the record that get-by-id finds for
  its id) and every partial update payload, update returns a record, stored in place of
  the old one, whose id is the original id even if the payload names another, whose
  \<^verbatim>\<open>updated_at\<close> is the time of the update, and whose fields not named in the payload are
  those of the stored record.
\<close>

theorem updateImage_frame:
  assumes "find (\<lambda>img. img_id img = i) (images db) = Some old"
  shows "\<exists>r db' k. updateImage ts i data (Stored db) = Inr (Some r, Stored db')
     \<and> k < length (images db) \<and> images db ! k = old \<and> images db' = (images db)[k := r]
     \<and> nextId db' = nextId db
     \<and> img_id old = i \<and> img_id r = i \<and> updated_at r = ts
     \<and> (p_slug data = None \<longrightarrow> slug r = slug old)
     \<and> (p_title data = None \<longrightarrow> title r = title old)
     \<and> (p_description data = None \<longrightarrow> description r = description old)
     \<and> (p_image_url data = None \<longrightarrow> image_url r = image_url old)
     \<and> (p_thumbnail_url data = None \<longrightarrow> thumbnail_url r = thumbnail_url old)
     \<and> (p_width data = None \<longrightarrow> width r = width old)
     \<and> (p_height data = None \<longrightarrow> height r = height old)
     \<and> (p_file_size data = None \<longrightarrow> file_size r = file_size old)
     \<and> (p_order_index data = None \<longrightarrow> order_index r = order_index old)
     \<and> (p_created_at data = None \<longrightarrow> created_at r = created_at old)
     \<and> video_url r = video_url old \<and> source r = source old
     \<and> locket_user_id r = locket_user_id old \<and> caption r = caption old
     \<and> overlays r = overlays old"
proof -
  from find_findIndex [OF assms] obtain k where
    k: "findIndex (\<lambda>img. img_id img = i) (images db) = Some k" "k < length (images db)"
       "images db ! k = old" by blast
  from findIndex_Some [OF k(1)] k(3) have i: "img_id old = i" by simp
  let ?r = "(spread old data)\<lparr>img_id := i, updated_at := ts\<rparr>"
  let ?db' = "db\<lparr>images := (images db)[k := ?r]\<rparr>"
  have run: "updateImage ts i data (Stored db) = Inr (Some ?r, Stored ?db')"
    using k by (simp add: updateImage_def saveDB_def Let_def)
  show ?thesis
    apply (rule exI [of _ ?r])
    apply (rule exI [of _ ?db'])
    apply (rule exI [of _ k])
    using run k i by (simp add: spread_def override_def)
qed

theorem updateImage_frame_witness:
  "find (\<lambda>img. img_id img = 1) (images sample_db) = Some (sample_image 1 ''a'' 0)
   \<and> (\<exists>r db'. updateImage ''2024-06-01'' 1 sample_patch (Stored sample_db) = Inr (Some r, Stored db')
        \<and> img_id r = 1 \<and> updated_at r = ''2024-06-01'' \<and> slug r = ''a'' \<and> order_index r = 0)"
  using updateImage_frame [of 1 sample_db "sample_image 1 ''a'' 0" "''2024-06-01''" sample_patch]
  by (auto simp: sample_db_def sample_patch_def sample_image_def)

subsection \<open>Delete\<close>

lemma splice1_distinct:
  assumes "distinct (map g xs)" "k < length xs"
  shows "g (xs ! k) \<notin> g ` set (splice1 k xs)"
proof -
  have "xs = take k xs @ xs ! k # drop (Suc k) xs"
    using assms(2) by (rule id_take_nth_drop)
  then have "distinct (map g (take k xs @ xs ! k # drop (Suc k) xs))"
    using assms(1) by simp
  then show ?thesis unfolding splice1_def by auto
qed

lemma splice1_set:
  assumes "k < length xs"
  shows "set xs = insert (xs ! k) (set (splice1 k xs))"
proof -
  have "xs = take k xs @ xs ! k # drop (Suc k) xs"
    using assms by (rule id_take_nth_drop)
  then have "set xs = set (take k xs @ xs ! k # drop (Suc k) xs)" by simp
  then show ?thesis unfolding splice1_def by auto
qed

text \<open>
  Claim C5. In a store whose identifiers are pairwise distinct (as the operations keep
  them, see \<open>run_store_ok\<close> below), for every record present: deleting it by id succeeds and
  removes exactly that record, list-all no longer returns it, and deleting the same id a
  second time returns false and leaves the collection unchanged.
\<close>

theorem deleteImage_twice:
  assumes "distinct (map img_id (images db))" and "r \<in> set (images db)"
  shows "\<exists>db'. deleteImage (img_id r) (Stored db) = Inr (True, Stored db')
     \<and> set (images db') = set (images db) - {r}
     \<and> (\<exists>xs. getAllImages (Stored db') = Inr (xs, Stored db') \<and> r \<notin> set xs)
     \<and> deleteImage (img_id r) (Stored db') = Inr (False, Stored db')"
proof -
  let ?P = "\<lambda>img. img_id img = img_id r"
  from assms(2) have "findIndex ?P (images db) \<noteq> None"
    by (auto simp: findIndex_None)
  then obtain k where k: "findIndex ?P (images db) = Some k" by auto
  from findIndex_Some [OF k] have kl: "k < length (images db)"
    and kid: "img_id (images db ! k) = img_id r" by auto
  from assms kl kid have kr: "images db ! k = r"
    by (metis distinct_map inj_on_def nth_mem)
  let ?ys = "splice1 k (images db)"
  from splice1_distinct [OF assms(1) kl] kr
  have fresh: "img_id r \<notin> img_id ` set ?ys" by simp
  then have rn: "r \<notin> set ?ys" by auto
  from splice1_set [OF kl] kr have "set (images db) = insert r (set ?ys)" by simp
  with rn have seteq: "set ?ys = set (images db) - {r}" by auto
  from fresh have none: "findIndex ?P ?ys = None"
    unfolding findIndex_None by (metis imageI)
  show ?thesis
    using k rn seteq none
    by (simp add: deleteImage_def saveDB_def getAllImages_def array_sort_set)
qed

theorem deleteImage_twice_witness:
  "distinct (map img_id (images sample_db)) \<and> sample_image 2 ''b'' 5 \<in> set (images sample_db)
   \<and> (\<exists>db'. deleteImage 2 (Stored sample_db) = Inr (True, Stored db')
        \<and> deleteImage 2 (Stored db') = Inr (False, Stored db'))"
  using deleteImage_twice [of sample_db "sample_image 2 ''b'' 5"]
  by (auto simp: sample_db_def sample_image_def)

section \<open>Properties of the handlers\<close>

subsection \<open>The public read API\<close>

lemma find_Some_first: "find P xs = Some x \<Longrightarrow> x \<in> set xs \<and> P x"
  by (induction xs) (auto split: if_splits)

text \<open>
  Claim C7, as amended. For every GET request to the public read API, on a store that can
  be read (no file yet, or a stored database): with a non-empty slug given once, the
  response is 404 with the JSON error body when no record has that slug, and 200 with a
  record of that slug when one exists; without a slug parameter, or with an empty or a
  repeated one, the response is 200 with the full record list.
\<close>

theorem images_handler_get:
  assumes "a_method req = ''GET''" and "f = Missing \<or> f = Stored db"
  shows "(\<forall>s. q_slug req = Single s \<and> s \<noteq> [] \<longrightarrow>
            ((\<forall>img\<in>set (file_images f). slug img \<noteq> s) \<longrightarrow>
               (\<exists>f'. images_handler req f =
                  Inr (\<lparr>a_status = 404, a_body = Error_body ''Image not found''\<rparr>, f')))
          \<and> ((\<exists>img\<in>set (file_images f). slug img = s) \<longrightarrow>
               (\<exists>r f'. images_handler req f = Inr (\<lparr>a_status = 200, a_body = Image_body r\<rparr>, f')
                  \<and> r \<in> set (file_images f) \<and> slug r = s)))
     \<and> (q_slug req = Absent \<or> q_slug req = Single [] \<or> (\<exists>ss. q_slug req = Repeated ss) \<longrightarrow>
          (\<exists>xs f'. images_handler req f = Inr (\<lparr>a_status = 200, a_body = Images_body xs\<rparr>, f')
             \<and> mset xs = mset (file_images f)))"
proof -
  have imgs: "initDB f = Inr (ParsedDb \<lparr>images = file_images f, nextId = next_of f\<rparr>,
                 Stored \<lparr>images = file_images f, nextId = next_of f\<rparr>)"
    using assms(2) by (auto simp: file_images_def next_of_def initialData_def)
  have list: "\<exists>xs f'. getAllImages f = Inr (xs, f') \<and> mset xs = mset (file_images f)"
    using imgs by (simp add: getAllImages_def array_sort_mset)
  have miss: "(\<forall>img\<in>set (file_images f). slug img \<noteq> s) \<Longrightarrow>
      \<exists>f'. getImageBySlug s f = Inr (None, f')" for s
    using imgs by (simp add: getImageBySlug_def find_None_iff)
  have hit: "(\<exists>img\<in>set (file_images f). slug img = s) \<Longrightarrow>
      \<exists>r f'. getImageBySlug s f = Inr (Some r, f') \<and> r \<in> set (file_images f) \<and> slug r = s" for s
  proof -
    assume "\<exists>img\<in>set (file_images f). slug img = s"
    then have "find (\<lambda>img. slug img = s) (file_images f) \<noteq> None"
      by (auto simp: find_None_iff)
    then obtain r where r: "find (\<lambda>img. slug img = s) (file_images f) = Some r" by auto
    from find_Some_first [OF r] r imgs show ?thesis
      by (simp add: getImageBySlug_def)
  qed
  show ?thesis
  proof (intro conjI allI impI)
    fix s assume "q_slug req = Single s \<and> s \<noteq> []"
      and "\<forall>img\<in>set (file_images f). slug img \<noteq> s"
    with miss [of s] assms(1)
    show "\<exists>f'. images_handler req f =
        Inr (\<lparr>a_status = 404, a_body = Error_body ''Image not found''\<rparr>, f')"
      by (auto simp: images_handler_def)
  next
    fix s assume "q_slug req = Single s \<and> s \<noteq> []"
      and "\<exists>img\<in>set (file_images f). slug img = s"
    with hit [of s] assms(1)
    show "\<exists>r f'. images_handler req f = Inr (\<lparr>a_status = 200, a_body = Image_body r\<rparr>, f')
        \<and> r \<in> set (file_images f) \<and> slug r = s"
      by (auto simp: images_handler_def)
  next
    assume "q_slug req = Absent \<or> q_slug req = Single [] \<or> (\<exists>ss. q_slug req = Repeated ss)"
    with list assms(1)
    show "\<exists>xs f'. images_handler req f = Inr (\<lparr>a_status = 200, a_body = Images_body xs\<rparr>, f')
        \<and> mset xs = mset (file_images f)"
      by (auto simp: images_handler_def)
  qed
qed

theorem images_handler_get_witness:
  "a_method (get_request (Single ''b'')) = ''GET''
   \<and> (Stored sample_db = Missing \<or> Stored sample_db = Stored sample_db)
   \<and> (\<exists>f'. images_handler (get_request (Single ''zz'')) (Stored sample_db) =
         Inr (\<lparr>a_status = 404, a_body = Error_body ''Image not found''\<rparr>, f'))
   \<and> (\<exists>r f'. images_handler (get_request (Single ''b'')) (Stored sample_db) =
         Inr (\<lparr>a_status = 200, a_body = Image_body r\<rparr>, f') \<and> slug r = ''b'')
   \<and> (\<exists>xs f'. images_handler (get_request Absent) (Stored sample_db) =
         Inr (\<lparr>a_status = 200, a_body = Images_body xs\<rparr>, f')
         \<and> mset xs = mset (file_images (Stored sample_db)))"
proof -
  let ?f = "Stored sample_db"
  have g: "a_method (get_request q) = ''GET''" for q
    by (simp add: get_request_def)
  have no: "\<forall>img\<in>set (file_images ?f). slug img \<noteq> ''zz''"
    by (simp add: file_images_def sample_db_def sample_image_def)
  have yes: "\<exists>img\<in>set (file_images ?f). slug img = ''b''"
    by (simp add: file_images_def sample_db_def sample_image_def)
  from images_handler_get [OF g, of ?f sample_db "Single ''zz''"] no
  have a: "\<exists>f'. images_handler (get_request (Single ''zz'')) ?f =
         Inr (\<lparr>a_status = 404, a_body = Error_body ''Image not found''\<rparr>, f')"
    by (simp add: get_request_def)
  from images_handler_get [OF g, of ?f sample_db "Single ''b''"] yes
  have b: "\<exists>r f'. images_handler (get_request (Single ''b'')) ?f =
         Inr (\<lparr>a_status = 200, a_body = Image_body r\<rparr>, f') \<and> slug r = ''b''"
    by (simp add: get_request_def) blast
  from images_handler_get [OF g, of ?f sample_db Absent]
  have c: "\<exists>xs f'. images_handler (get_request Absent) ?f =
         Inr (\<lparr>a_status = 200, a_body = Images_body xs\<rparr>, f')
         \<and> mset xs = mset (file_images ?f)"
    by (simp add: get_request_def)
  from g a b c show ?thesis by simp
qed

text \<open>
  The claim as stated fails for a request whose slug parameter is empty
  (\<^verbatim>\<open>/api/images?slug=\<close>): no record has the empty slug, and the answer is the full
  list with status 200, not 404. The guard \<^verbatim>\<open>slug && typeof slug === 'string'\<close> takes the
  empty text for no slug.
\<close>

theorem empty_slug_counterexample:
  "q_slug (get_request (Single [])) = Single []
   \<and> find (\<lambda>img. slug img = []) (file_images (Stored sample_db)) = None
   \<and> images_handler (get_request (Single [])) (Stored sample_db)
       = Inr (\<lparr>a_status = 200,
               a_body = Images_body [sample_image 2 ''b'' 5, sample_image 1 ''a'' 0]\<rparr>,
              Stored sample_db)"
proof -
  have a: "images_handler (get_request (Single [])) (Stored sample_db)
       = Inr (\<lparr>a_status = 200,
               a_body = Images_body [sample_image 2 ''b'' 5, sample_image 1 ''a'' 0]\<rparr>,
              Stored sample_db)"
    by (simp add: get_request_def images_handler_def getAllImages_sample)
  have b: "find (\<lambda>img. slug img = []) (file_images (Stored sample_db)) = None"
    by (simp add: file_images_def sample_db_def sample_image_def)
  from a b show ?thesis by (simp add: get_request_def)
qed

subsection \<open>Credentials\<close>

text \<open>
  Claim C10. For every request to the sync or the reset handler in which the Locket token
  or the Locket user id is missing (neither the body nor the header carries a non-empty
  one), the handler answers with success false and leaves the file as it was, whatever the
  file and whatever the moments endpoint would have answered; for a POST, the method of a
  sync or reset request, the status is 401.
\<close>

theorem credentials_checked_first:
  assumes "\<not> truthy (or_else (body_token req) (header_token req))
           \<or> \<not> truthy (or_else (body_localId req) (header_uid req))"
  shows "success (fst (sync_handler c req fetched f)) = False
     \<and> snd (sync_handler c req fetched f) = f
     \<and> (http_method req = ''POST'' \<longrightarrow> status (fst (sync_handler c req fetched f)) = 401)
     \<and> success (fst (reset_handler c req fetched f)) = False
     \<and> snd (reset_handler c req fetched f) = f
     \<and> (http_method req = ''POST'' \<longrightarrow> status (fst (reset_handler c req fetched f)) = 401)"
  using assms by (auto simp: sync_handler_def reset_handler_def respond_def Let_def)

theorem credentials_checked_first_witness:
  "\<not> truthy (or_else (body_localId anonymous_request) (header_uid anonymous_request))
   \<and> status (fst (sync_handler sample_clock anonymous_request (Inr (listing [])) (Stored sample_db))) = 401
   \<and> snd (sync_handler sample_clock anonymous_request (Inr (listing [])) (Stored sample_db)) = Stored sample_db
   \<and> status (fst (reset_handler sample_clock anonymous_request (Inr (listing [])) (Stored sample_db))) = 401
   \<and> snd (reset_handler sample_clock anonymous_request (Inr (listing [])) (Stored sample_db)) = Stored sample_db"
  using credentials_checked_first [of anonymous_request sample_clock "Inr (listing [])" "Stored sample_db"]
  by (simp add: anonymous_request_def truthy_def or_else_def)

subsection \<open>Reset\<close>

lemma dateStr_ok: "date_ok m \<Longrightarrow> \<exists>d. dateStr c m = Inr d"
  by (auto simp: date_ok_def dateStr_def toISOString_def)

lemma reset_map_ok:
  "list_all date_ok ms \<Longrightarrow>
   \<exists>out. reset_map c u ms nid = Inr (out, nid + int (length ms))
     \<and> length out = length ms
     \<and> map slug out = map locket_slug ms
     \<and> (\<forall>k<length out. img_id (out ! k) = nid + int k \<and> order_index (out ! k) = nid + int k)"
proof (induction ms arbitrary: nid)
  case Nil
  then show ?case by simp
next
  case (Cons m ms)
  from Cons.prems obtain d where d: "dateStr c m = Inr d"
    using dateStr_ok by auto
  from Cons.prems have "list_all date_ok ms" by simp
  from Cons.IH [OF this, of "nid + 1"] obtain out where
    out: "reset_map c u ms (nid + 1) = Inr (out, nid + 1 + int (length ms))"
      "length out = length ms" "map slug out = map locket_slug ms"
      "\<forall>k<length out. img_id (out ! k) = nid + 1 + int k \<and> order_index (out ! k) = nid + 1 + int k"
    by blast
  let ?r = "reset_image c u nid m d"
  have "\<forall>k<length (?r # out). img_id ((?r # out) ! k) = nid + int k
          \<and> order_index ((?r # out) ! k) = nid + int k"
  proof (intro allI impI)
    fix k assume "k < length (?r # out)"
    then show "img_id ((?r # out) ! k) = nid + int k \<and> order_index ((?r # out) ! k) = nid + int k"
      using out(4) by (cases k) (auto simp: reset_image_def)
  qed
  with d out show ?case
    by (intro exI [of _ "?r # out"]) (simp add: reset_image_def)
qed

lemma map_throwing_set:
  "map_throwing g xs = Inr ys \<Longrightarrow> \<forall>y\<in>set ys. \<exists>x\<in>set xs. g x = Inr y"
  by (induction xs arbitrary: ys) (auto split: sum.splits)

text \<open>
  The listings of the endpoint that reads Firebase alone: every listed moment has an id
  and a URL, and its date can be computed.
\<close>

lemma fetch_moment_ok:
  assumes "fetch_moment c parse u e = Inr (Some (m, nan))"
  shows "date_ok m \<and> m_id m \<noteq> []"
proof -
  let ?ct = "create_time parse e"
  show ?thesis
  proof (cases ?ct)
    case None
    with assms show ?thesis
      by (auto simp: fetch_moment_def Let_def date_ok_def split: if_splits)
  next
    case (Some t)
    show ?thesis
    proof (cases "t = 0")
      case True
      with Some assms show ?thesis
        by (auto simp: fetch_moment_def Let_def date_ok_def split: if_splits)
    next
      case False
      with Some assms show ?thesis
        by (auto simp: fetch_moment_def Let_def date_ok_def toISOString_def
            split: if_splits sum.splits)
    qed
  qed
qed

lemma filter_Boolean_set: "set (filter_Boolean xs) = {x. Some x \<in> set xs}"
  by (induction xs) (auto simp: filter_Boolean_def List.map_filter_simps split: option.splits)

lemma fetchLocketMoments_listing:
  assumes "fetchLocketMoments c parse u es = Inr data"
  shows "list_all has_url data \<and> list_all date_ok data \<and> list_all (\<lambda>m. m_id m \<noteq> []) data"
proof -
  from assms obtain ms where
    ms: "map_throwing (fetch_moment c parse u) es = Inr ms"
    and data: "data = map fst (array_sort compare_createTime
                          (filter (\<lambda>p. has_url (fst p)) (filter_Boolean ms)))"
    by (auto simp: fetchLocketMoments_def split: sum.splits)
  have "has_url m \<and> date_ok m \<and> m_id m \<noteq> []" if "m \<in> set data" for m
  proof -
    from that data obtain nan where p: "Some (m, nan) \<in> set ms" and url: "has_url m"
      by (auto simp: array_sort_set filter_Boolean_set)
    from map_throwing_set [OF ms] p obtain e where "fetch_moment c parse u e = Inr (Some (m, nan))"
      by blast
    from fetch_moment_ok [OF this] url show ?thesis by simp
  qed
  then show ?thesis by (simp add: list_all_iff)
qed

text \<open>
  Claim C1, as amended. For every listing of the moments endpoint on which reset runs to
  completion (a POST with credentials, a successful answer, and a computable date for
  every moment that is converted), reset replaces the stored collection entirely: the
  file afterwards holds exactly the rebuilt records, whatever it held before. Their number
  is the number of listed moments that have a thumbnail or image URL. That is the size of
  the listing when every listed moment has one, as in every listing of the endpoint that
  reads Firebase alone.
\<close>

theorem reset_replaces:
  assumes "http_method req = ''POST''"
    and "truthy (or_else (body_token req) (header_token req))"
    and "truthy (or_else (body_localId req) (header_uid req))"
    and "mr_success mr" and "mr_data mr = Some data"
    and "list_all date_ok (filter has_url data)"
  shows "\<exists>new. (\<forall>f. reset_handler c req (Inr mr) f =
            (respond 200 True (Some (length new)) None (Reset_done (length new)),
             Stored \<lparr>images = new, nextId = 1 + int (length new)\<rparr>))
      \<and> length new = length (filter has_url data)
      \<and> (list_all has_url data \<longrightarrow> length new = length data)
      \<and> (\<forall>c' parse u es. fetchLocketMoments c' parse u es = Inr data \<longrightarrow>
            length new = length data)
      \<and> map slug new = map locket_slug (filter has_url data)"
proof -
  let ?u = "case or_else (body_localId req) (header_uid req) of Some u \<Rightarrow> u | None \<Rightarrow> []"
  from reset_map_ok [OF assms(6), of c ?u 1] obtain new where
    new: "reset_map c ?u (filter has_url data) 1 = Inr (new, 1 + int (length (filter has_url data)))"
      "length new = length (filter has_url data)"
      "map slug new = map locket_slug (filter has_url data)"
    by blast
  have all: "list_all has_url data \<longrightarrow> filter has_url data = data"
    by (simp add: list_all_iff)
  have fb: "\<forall>c' parse u es. fetchLocketMoments c' parse u es = Inr data \<longrightarrow>
      length new = length data"
    using fetchLocketMoments_listing all new(2) by fastforce
  have run: "\<forall>f. reset_handler c req (Inr mr) f =
            (respond 200 True (Some (length new)) None (Reset_done (length new)),
             Stored \<lparr>images = new, nextId = 1 + int (length new)\<rparr>)"
    using assms(1-5) new by (simp add: reset_handler_def Let_def)
  from run new(2,3) all fb show ?thesis
    by (intro exI [of _ new]) simp
qed

theorem reset_replaces_witness:
  "http_method sample_request = ''POST''
   \<and> truthy (or_else (body_token sample_request) (header_token sample_request))
   \<and> truthy (or_else (body_localId sample_request) (header_uid sample_request))
   \<and> mr_success (listing [sample_moment ''m1'' ''u1'', sample_moment ''m2'' []])
   \<and> mr_data (listing [sample_moment ''m1'' ''u1'', sample_moment ''m2'' []])
        = Some [sample_moment ''m1'' ''u1'', sample_moment ''m2'' []]
   \<and> list_all date_ok (filter has_url [sample_moment ''m1'' ''u1'', sample_moment ''m2'' []])
   \<and> (\<exists>new. snd (reset_handler sample_clock sample_request
                   (Inr (listing [sample_moment ''m1'' ''u1'', sample_moment ''m2'' []])) (Stored sample_db))
               = Stored \<lparr>images = new, nextId = 1 + int (length new)\<rparr>
             \<and> length new = 1 \<and> map slug new = [''locket-m1''])"
proof -
  have h: "http_method sample_request = ''POST''"
    "truthy (or_else (body_token sample_request) (header_token sample_request))"
    "truthy (or_else (body_localId sample_request) (header_uid sample_request))"
    "mr_success (listing [sample_moment ''m1'' ''u1'', sample_moment ''m2'' []])"
    "mr_data (listing [sample_moment ''m1'' ''u1'', sample_moment ''m2'' []])
        = Some [sample_moment ''m1'' ''u1'', sample_moment ''m2'' []]"
    "list_all date_ok (filter has_url [sample_moment ''m1'' ''u1'', sample_moment ''m2'' []])"
    by (simp_all add: sample_request_def truthy_def or_else_def listing_def sample_moment_def
        has_url_def date_ok_def)
  from reset_replaces [OF h, of sample_clock] obtain new where
    "\<forall>f. reset_handler sample_clock sample_request
            (Inr (listing [sample_moment ''m1'' ''u1'', sample_moment ''m2'' []])) f =
         (respond 200 True (Some (length new)) None (Reset_done (length new)),
          Stored \<lparr>images = new, nextId = 1 + int (length new)\<rparr>)"
    "length new = length (filter has_url [sample_moment ''m1'' ''u1'', sample_moment ''m2'' []])"
    "map slug new = map locket_slug (filter has_url [sample_moment ''m1'' ''u1'', sample_moment ''m2'' []])"
    by blast
  then have "\<exists>new. snd (reset_handler sample_clock sample_request
                   (Inr (listing [sample_moment ''m1'' ''u1'', sample_moment ''m2'' []])) (Stored sample_db))
               = Stored \<lparr>images = new, nextId = 1 + int (length new)\<rparr>
             \<and> length new = 1 \<and> map slug new = [''locket-m1'']"
    by (intro exI [of _ new]) (simp add: has_url_def sample_moment_def locket_slug_def)
  with h show ?thesis by simp
qed

text \<open>
  The claim as stated fails on a listing of the merging moments endpoint: an entry of the
  Dio service that carries no URL, of which Firebase knows none either, is listed with
  empty URLs, and reset leaves it out.
\<close>

lemma merged_listing_eq:
  "merged_listing = [\<lparr>m_id = ''m1'', m_user = ''uid'', imageUrl = [], thumbnailUrl = [],
      videoUrl = None, m_caption = None, m_overlays = None, createTime = 1700000000,
      date = ''2023-11-14''\<rparr>]"
  by (simp add: merged_listing_def mergeMoments_def merge_moment_def bare_dio_def or_empty_def
      or_else_def or_null_def truthy_def Let_def)

theorem reset_count_counterexample:
  "status (fst (reset_handler sample_clock sample_request (Inr (listing merged_listing)) Missing)) = 200
   \<and> length (file_images (snd (reset_handler sample_clock sample_request
                                  (Inr (listing merged_listing)) Missing))) = 0
   \<and> length merged_listing = 1"
  by (simp add: merged_listing_eq reset_handler_def sample_request_def listing_def has_url_def
      or_else_def truthy_def respond_def file_images_def Let_def)

subsection \<open>Sync\<close>

lemma filter_Boolean_simps [simp]:
  "filter_Boolean [] = []"
  "filter_Boolean (None # xs) = filter_Boolean xs"
  "filter_Boolean (Some x # xs) = x # filter_Boolean xs"
  by (simp_all add: filter_Boolean_def List.map_filter_simps)

lemma sync_image_fields [simp]:
  "slug (sync_image c u n st m d) = locket_slug m"
  "img_id (sync_image c u n st m d) = s_nextId st"
  by (simp_all add: sync_image_def)

lemma sync_map_props:
  "sync_map c u n ms st = Inr (out, st') \<Longrightarrow>
     existingSlugs st' = existingSlugs st \<union> set (map slug (filter_Boolean out))
   \<and> locket_slug ` set ms \<subseteq> existingSlugs st'
   \<and> distinct (map slug (filter_Boolean out))
   \<and> set (map slug (filter_Boolean out)) \<inter> existingSlugs st = {}
   \<and> set (map slug (filter_Boolean out)) \<subseteq> locket_slug ` set ms
   \<and> syncedCount st' = syncedCount st + length (filter_Boolean out)
   \<and> length out = length ms"
proof (induction ms arbitrary: st out st')
  case Nil
  then show ?case by simp
next
  case (Cons m ms)
  show ?case
  proof (cases "locket_slug m \<in> existingSlugs st")
    case True
    let ?st1 = "st\<lparr>skippedCount := skippedCount st + 1\<rparr>"
    from Cons.prems True obtain out' where
      r: "sync_map c u n ms ?st1 = Inr (out', st')" and o: "out = None # out'"
      by (auto split: sum.splits)
    from Cons.IH [OF r] True o show ?thesis by auto
  next
    case False
    let ?st1 = "st\<lparr>syncedCount := syncedCount st + 1,
                   existingSlugs := insert (locket_slug m) (existingSlugs st)\<rparr>"
    let ?st2 = "?st1\<lparr>s_nextId := js_succ (s_nextId ?st1)\<rparr>"
    from Cons.prems False obtain d out' where
      d: "dateStr c m = Inr d" and
      r: "sync_map c u n ms ?st2 = Inr (out', st')" and
      o: "out = Some (sync_image c u n ?st1 m d) # out'"
      by (auto simp: Let_def split: sum.splits)
    note ih = Cons.IH [OF r]
    from ih o False show ?thesis by auto
  qed
qed

text \<open>Within 2^53 the counter of sync is exact: the new records get the next identifiers.\<close>

lemma js_succ_exact: "0 \<le> x \<Longrightarrow> x < 9007199254740992 \<Longrightarrow> js_succ x = x + 1"
  by (simp add: js_succ_def to_double_def)

lemma sync_map_ids:
  "sync_map c u n ms st = Inr (out, st') \<Longrightarrow> 0 \<le> s_nextId st \<Longrightarrow>
   s_nextId st + int (length ms) \<le> 9007199254740992 \<Longrightarrow>
     s_nextId st' = s_nextId st + int (length (filter_Boolean out))
   \<and> (\<forall>k<length (filter_Boolean out). img_id (filter_Boolean out ! k) = s_nextId st + int k)
   \<and> length (filter_Boolean out) \<le> length ms"
proof (induction ms arbitrary: st out st')
  case Nil
  then show ?case by simp
next
  case (Cons m ms)
  show ?case
  proof (cases "locket_slug m \<in> existingSlugs st")
    case True
    let ?st1 = "st\<lparr>skippedCount := skippedCount st + 1\<rparr>"
    from Cons.prems(1) True obtain out' where
      r: "sync_map c u n ms ?st1 = Inr (out', st')" and o: "out = None # out'"
      by (auto split: sum.splits)
    from Cons.prems(2,3) have b: "0 \<le> s_nextId ?st1"
      "s_nextId ?st1 + int (length ms) \<le> 9007199254740992" by simp_all
    from Cons.IH [OF r b] o show ?thesis by simp
  next
    case False
    let ?st1 = "st\<lparr>syncedCount := syncedCount st + 1,
                   existingSlugs := insert (locket_slug m) (existingSlugs st)\<rparr>"
    let ?st2 = "?st1\<lparr>s_nextId := js_succ (s_nextId ?st1)\<rparr>"
    from Cons.prems(1) False obtain d out' where
      d: "dateStr c m = Inr d" and
      r: "sync_map c u n ms ?st2 = Inr (out', st')" and
      o: "out = Some (sync_image c u n ?st1 m d) # out'"
      by (auto simp: Let_def split: sum.splits)
    from Cons.prems(2,3) have next_id: "s_nextId ?st2 = s_nextId st + 1"
      by (simp add: js_succ_exact)
    with Cons.prems(2,3) have b: "0 \<le> s_nextId ?st2"
      "s_nextId ?st2 + int (length ms) \<le> 9007199254740992" by simp_all
    note ih = Cons.IH [OF r b]
    have ids: "\<forall>k<length (filter_Boolean out). img_id (filter_Boolean out ! k) = s_nextId st + int k"
    proof (intro allI impI)
      fix k assume "k < length (filter_Boolean out)"
      then show "img_id (filter_Boolean out ! k) = s_nextId st + int k"
        using ih o next_id by (cases k) auto
    qed
    from ih o next_id ids show ?thesis by simp
  qed
qed

lemma sync_map_all_skipped:
  "locket_slug ` set ms \<subseteq> existingSlugs st \<Longrightarrow>
   \<exists>out st'. sync_map c u n ms st = Inr (out, st') \<and> filter_Boolean out = []
      \<and> skippedCount st' = skippedCount st + length ms"
proof (induction ms arbitrary: st)
  case Nil
  then show ?case by simp
next
  case (Cons m ms)
  let ?st1 = "st\<lparr>skippedCount := skippedCount st + 1\<rparr>"
  from Cons.prems have "locket_slug ` set ms \<subseteq> existingSlugs ?st1" by simp
  from Cons.IH [OF this] obtain out st' where
    "sync_map c u n ms ?st1 = Inr (out, st')" "filter_Boolean out = []"
    "skippedCount st' = skippedCount ?st1 + length ms" by blast
  with Cons.prems show ?case by simp
qed

lemma file_images_load: "fst (load_existing f) = file_images f"
  by (cases f) (simp_all add: load_existing_def file_images_def)

lemma load_existing_pair: "load_existing f = (file_images f, snd (load_existing f))"
  by (metis file_images_load prod.collapse)

lemma sync_handler_accepted:
  assumes "accepted req fetched data"
  shows "sync_handler c req fetched f =
     (case sync_map c (user_of req) (length (file_images f)) (filter has_url data) (sync_start f) of
        Inl e \<Rightarrow> (respond 500 False None None (Failure e), f)
      | Inr (out, st) \<Rightarrow>
          if filter_Boolean out = [] then
            (respond 200 True (Some 0) (Some (skippedCount st))
               (if skippedCount st > 0 then Already_synced (skippedCount st) else Nothing_new), f)
          else
            (respond 200 True (Some (length (filter_Boolean out))) (Some (skippedCount st))
               (Synced (length (filter_Boolean out))),
             Stored \<lparr>images = file_images f @ filter_Boolean out, nextId = s_nextId st\<rparr>))"
proof -
  obtain mr where mr: "fetched = Inr mr" "mr_success mr" "mr_data mr = Some data"
    using assms by (auto simp: accepted_def split: sum.splits)
  show ?thesis
    using assms mr
    apply (subst sync_handler_def)
    apply (subst load_existing_pair)
    apply (simp add: accepted_def Let_def sync_start_def user_of_def split: sum.splits)
    done
qed

lemma sync_handler_rejected:
  assumes "\<And>data. \<not> accepted req fetched data"
  shows "snd (sync_handler c req fetched f) = f \<and> status (fst (sync_handler c req fetched f)) \<noteq> 200"
proof (cases fetched)
  case (Inl e)
  then show ?thesis
    by (simp add: sync_handler_def respond_def Let_def)
next
  case (Inr mr)
  show ?thesis
  proof (cases "mr_data mr")
    case None
    with Inr show ?thesis by (simp add: sync_handler_def respond_def Let_def)
  next
    case (Some data)
    with assms [of data] Inr show ?thesis
      by (auto simp: sync_handler_def respond_def Let_def accepted_def)
  qed
qed

lemma sync_second_run:
  assumes "accepted req fetched data"
    and "locket_slug ` set (filter has_url data) \<subseteq> set (map slug (file_images g))"
  shows "sync_handler c req fetched g =
     (respond 200 True (Some 0) (Some (length (filter has_url data)))
        (if length (filter has_url data) > 0 then Already_synced (length (filter has_url data))
         else Nothing_new), g)"
proof -
  from assms(2) have "locket_slug ` set (filter has_url data) \<subseteq> existingSlugs (sync_start g)"
    by (simp add: sync_start_def)
  from sync_map_all_skipped [OF this, of c "user_of req" "length (file_images g)"]
  obtain out st' where
    "sync_map c (user_of req) (length (file_images g)) (filter has_url data) (sync_start g)
       = Inr (out, st')" "filter_Boolean out = []"
    "skippedCount st' = skippedCount (sync_start g) + length (filter has_url data)"
    by blast
  then show ?thesis
    by (simp add: sync_handler_accepted [OF assms(1)] sync_start_def)
qed

text \<open>
  What a sync request does to the file, whatever the request and the file: it appends
  records (none when it fails), with slugs that are new and pairwise distinct; after a
  successful run a second run on the same listing appends nothing; and as long as the
  counter cannot pass 2^53 the new records get the next identifiers in order.
\<close>

lemma sync_outcome:
  "\<exists>new. file_images (snd (sync_handler c req fetched f)) = file_images f @ new
     \<and> distinct (map slug new)
     \<and> set (map slug new) \<inter> set (map slug (file_images f)) = {}
     \<and> (\<forall>img\<in>set new. \<exists>mr data m. fetched = Inr mr \<and> mr_data mr = Some data
            \<and> m \<in> set data \<and> has_url m \<and> slug img = locket_slug m)
     \<and> (0 \<le> snd (load_existing f)
          \<and> snd (load_existing f) + int (demand (Sync c req fetched)) \<le> 9007199254740992 \<longrightarrow>
          length new \<le> demand (Sync c req fetched)
          \<and> (\<forall>k<length new. img_id (new ! k) = snd (load_existing f) + int k)
          \<and> (if new = [] then snd (sync_handler c req fetched f) = f
              else snd (sync_handler c req fetched f)
                     = Stored \<lparr>images = file_images f @ new,
                               nextId = snd (load_existing f) + int (length new)\<rparr>))
     \<and> (status (fst (sync_handler c req fetched f)) = 200 \<longrightarrow>
          r_syncedCount (fst (sync_handler c req fetched f)) = Some (length new)
          \<and> (\<forall>c'. snd (sync_handler c' req fetched (snd (sync_handler c req fetched f)))
                  = snd (sync_handler c req fetched f)
               \<and> status (fst (sync_handler c' req fetched (snd (sync_handler c req fetched f)))) = 200
               \<and> r_syncedCount (fst (sync_handler c' req fetched (snd (sync_handler c req fetched f))))
                    = Some 0))"
proof (cases "\<exists>data. accepted req fetched data")
  case False
  then have "snd (sync_handler c req fetched f) = f \<and> status (fst (sync_handler c req fetched f)) \<noteq> 200"
    using sync_handler_rejected by blast
  then show ?thesis by (intro exI [of _ "[]"]) simp
next
  case True
  then obtain data where acc: "accepted req fetched data" by blast
  let ?ms = "filter has_url data"
  note h = sync_handler_accepted [OF acc, of c f]
  show ?thesis
  proof (cases "sync_map c (user_of req) (length (file_images f)) ?ms (sync_start f)")
    case (Inl e)
    with h have "sync_handler c req fetched f = (respond 500 False None None (Failure e), f)"
      by simp
    then show ?thesis by (intro exI [of _ "[]"]) (simp add: respond_def)
  next
    case (Inr p)
    obtain out st where p: "p = (out, st)" by (cases p)
    let ?new = "filter_Boolean out"
    from sync_map_props [OF Inr [unfolded p]]
    have props: "existingSlugs st = existingSlugs (sync_start f) \<union> set (map slug ?new)"
      "locket_slug ` set ?ms \<subseteq> existingSlugs st"
      "distinct (map slug ?new)"
      "set (map slug ?new) \<inter> existingSlugs (sync_start f) = {}"
      "set (map slug ?new) \<subseteq> locket_slug ` set ?ms"
      by auto
    from acc obtain mr where mr: "fetched = Inr mr" "mr_data mr = Some data"
      by (auto simp: accepted_def split: sum.splits)
    have prov: "\<forall>img\<in>set ?new. \<exists>mr data m. fetched = Inr mr \<and> mr_data mr = Some data
            \<and> m \<in> set data \<and> has_url m \<and> slug img = locket_slug m"
    proof
      fix img assume "img \<in> set ?new"
      then have "slug img \<in> locket_slug ` set ?ms" using props(5) by auto
      then obtain m where "m \<in> set data" "has_url m" "slug img = locket_slug m" by auto
      with mr show "\<exists>mr data m. fetched = Inr mr \<and> mr_data mr = Some data
            \<and> m \<in> set data \<and> has_url m \<and> slug img = locket_slug m" by blast
    qed
    have nid: "s_nextId (sync_start f) = snd (load_existing f)"
      by (simp add: sync_start_def)
    have start: "existingSlugs (sync_start f) = set (map slug (file_images f))"
      by (simp add: sync_start_def)
    let ?f' = "snd (sync_handler c req fetched f)"
    have f': "file_images ?f' = file_images f @ ?new" and st200: "status (fst (sync_handler c req fetched f)) = 200"
      and cnt: "r_syncedCount (fst (sync_handler c req fetched f)) = Some (length ?new)"
      using h Inr p by (auto simp: file_images_def respond_def)
    have covered: "locket_slug ` set ?ms \<subseteq> set (map slug (file_images ?f'))"
      using props(1,2) start f' by auto
    note again = sync_second_run [OF acc covered]
    have dem: "demand (Sync c req fetched) = length data"
      using mr by simp
    have fl: "length ?new \<le> demand (Sync c req fetched)
          \<and> (\<forall>k<length ?new. img_id (?new ! k) = snd (load_existing f) + int k)
          \<and> (if ?new = [] then ?f' = f
              else ?f' = Stored \<lparr>images = file_images f @ ?new,
                                 nextId = snd (load_existing f) + int (length ?new)\<rparr>)"
      if bound: "0 \<le> snd (load_existing f)"
        "snd (load_existing f) + int (demand (Sync c req fetched)) \<le> 9007199254740992"
    proof -
      have le: "length ?ms \<le> length data" by simp
      from bound(2) have bd: "snd (load_existing f) + int (length data) \<le> 9007199254740992"
        unfolding dem .
      from bound(1) nid have b1: "0 \<le> s_nextId (sync_start f)" by simp
      from le bd have b2: "s_nextId (sync_start f) + int (length ?ms) \<le> 9007199254740992"
        unfolding nid by linarith
      note b = b1 b2
      from sync_map_ids [OF Inr [unfolded p] b]
      have ids: "s_nextId st = s_nextId (sync_start f) + int (length ?new)"
        "\<forall>k<length ?new. img_id (?new ! k) = s_nextId (sync_start f) + int k"
        "length ?new \<le> length ?ms" by auto
      from ids(3) le have "length ?new \<le> length data" by linarith
      then have "length ?new \<le> demand (Sync c req fetched)"
        unfolding dem .
      moreover have "if ?new = [] then ?f' = f
              else ?f' = Stored \<lparr>images = file_images f @ ?new,
                                 nextId = snd (load_existing f) + int (length ?new)\<rparr>"
        using h Inr p ids(1) nid by auto
      ultimately show ?thesis using ids(2) nid by simp
    qed
    show ?thesis
      apply (rule exI [of _ ?new])
      using f' props(3,4) start cnt again fl st200 prov
      by (simp add: respond_def)
  qed
qed

text \<open>
  Claim C2, as amended. For every prior store state and every listing, sync adds no record
  whose slug an existing record or another added record carries (duplicates within the
  listing and against existing records are skipped), so a store whose slugs are pairwise
  distinct keeps them so; and after a sync that succeeded, running sync again with the
  same listing reports a synced count of zero and leaves the store as it is.
\<close>

theorem sync_adds_no_duplicate:
  "\<exists>new. file_images (snd (sync_handler c req fetched f)) = file_images f @ new
     \<and> distinct (map slug new)
     \<and> set (map slug new) \<inter> set (map slug (file_images f)) = {}
     \<and> (distinct (map slug (file_images f)) \<longrightarrow>
          distinct (map slug (file_images (snd (sync_handler c req fetched f)))))
     \<and> (status (fst (sync_handler c req fetched f)) = 200 \<longrightarrow>
          r_syncedCount (fst (sync_handler c req fetched f)) = Some (length new)
          \<and> (\<forall>c'. snd (sync_handler c' req fetched (snd (sync_handler c req fetched f)))
                  = snd (sync_handler c req fetched f)
               \<and> status (fst (sync_handler c' req fetched (snd (sync_handler c req fetched f)))) = 200
               \<and> r_syncedCount (fst (sync_handler c' req fetched (snd (sync_handler c req fetched f))))
                    = Some 0))"
proof -
  from sync_outcome [of c req fetched f] obtain new where
    new: "file_images (snd (sync_handler c req fetched f)) = file_images f @ new"
      "distinct (map slug new)"
      "set (map slug new) \<inter> set (map slug (file_images f)) = {}"
      "status (fst (sync_handler c req fetched f)) = 200 \<longrightarrow>
          r_syncedCount (fst (sync_handler c req fetched f)) = Some (length new)
          \<and> (\<forall>c'. snd (sync_handler c' req fetched (snd (sync_handler c req fetched f)))
                  = snd (sync_handler c req fetched f)
               \<and> status (fst (sync_handler c' req fetched (snd (sync_handler c req fetched f)))) = 200
               \<and> r_syncedCount (fst (sync_handler c' req fetched (snd (sync_handler c req fetched f))))
                    = Some 0)"
    by blast
  have "distinct (map slug (file_images f)) \<longrightarrow>
          distinct (map slug (file_images (snd (sync_handler c req fetched f))))"
    using new(1,2,3) by auto
  with new show ?thesis by blast
qed

lemma sample_sync_status:
  "status (fst (sync_handler sample_clock sample_request (Inr (listing sample_moments))
                  (Stored sample_db))) = 200"
  "r_syncedCount (fst (sync_handler sample_clock sample_request (Inr (listing sample_moments))
                  (Stored sample_db))) = Some 2"
  by code_simp+

theorem sync_adds_no_duplicate_witness:
  "distinct (map slug (file_images (Stored sample_db)))
   \<and> status (fst (sync_handler sample_clock sample_request (Inr (listing sample_moments))
                    (Stored sample_db))) = 200
   \<and> distinct (map slug (file_images (snd (sync_handler sample_clock sample_request
                    (Inr (listing sample_moments)) (Stored sample_db)))))
   \<and> r_syncedCount (fst (sync_handler sample_clock sample_request (Inr (listing sample_moments))
                    (Stored sample_db))) = Some 2
   \<and> r_syncedCount (fst (sync_handler sample_clock sample_request (Inr (listing sample_moments))
        (snd (sync_handler sample_clock sample_request (Inr (listing sample_moments))
                (Stored sample_db))))) = Some 0"
proof -
  have d: "distinct (map slug (file_images (Stored sample_db)))"
    by (simp add: file_images_def sample_db_def sample_image_def)
  from sync_adds_no_duplicate [of sample_clock sample_request "Inr (listing sample_moments)"
      "Stored sample_db"] d sample_sync_status(1)
  have "distinct (map slug (file_images (snd (sync_handler sample_clock sample_request
                    (Inr (listing sample_moments)) (Stored sample_db)))))"
    and "r_syncedCount (fst (sync_handler sample_clock sample_request (Inr (listing sample_moments))
        (snd (sync_handler sample_clock sample_request (Inr (listing sample_moments))
                (Stored sample_db))))) = Some 0"
    by blast+
  with d sample_sync_status show ?thesis by simp
qed

text \<open>
  The claim as stated, for every prior store state, fails on a store that already holds
  two records with one slug; two inserts of the same slug produce such a store.
\<close>

lemma dup_db_reachable:
  "snd (run [Insert ''2024-01-01'' (sample_image 0 ''a'' 0),
             Insert ''2024-01-01'' (sample_image 0 ''a'' 0)] Missing) = Stored dup_db"
  by (simp add: createImage_def saveDB_def initialData_def sample_image_def dup_db_def Let_def
      js_succ_def to_double_def)

theorem sync_duplicates_counterexample:
  "\<not> distinct (map slug (file_images (snd (sync_handler sample_clock sample_request
        (Inr (listing [sample_moment ''m1'' ''u1''])) (Stored dup_db)))))"
proof -
  from sync_outcome [of sample_clock sample_request "Inr (listing [sample_moment ''m1'' ''u1''])"
      "Stored dup_db"]
  obtain new where "file_images (snd (sync_handler sample_clock sample_request
        (Inr (listing [sample_moment ''m1'' ''u1''])) (Stored dup_db)))
      = file_images (Stored dup_db) @ new" by blast
  then show ?thesis by (simp add: file_images_def dup_db_def sample_image_def)
qed

section \<open>Sequences of operations\<close>

lemma store_ok_cases:
  assumes "store_ok f"
  obtains "f = Missing" | db where "f = Stored db" "0 < nextId db"
    "list_all (\<lambda>img. img_id img < nextId db) (images db)" "distinct (map img_id (images db))"
  using assms by (cases f) auto

lemma store_ok_initDB:
  assumes "store_ok f"
  shows "\<exists>db. initDB f = Inr (ParsedDb db, Stored db) \<and> store_ok (Stored db)
     \<and> images db = file_images f \<and> nextId db = next_of f"
  using assms
  by (cases f) (auto simp: initialData_def file_images_def next_of_def)

lemma load_existing_ok: "store_ok f \<Longrightarrow> snd (load_existing f) = next_of f"
  by (cases f) (auto simp: load_existing_def next_of_def)

lemma map_update_same: "k < length xs \<Longrightarrow> g x = g (xs ! k) \<Longrightarrow> map g (xs[k := x]) = map g xs"
  by (simp add: map_update list_update_same_conv)

lemma splice1_map: "map g (splice1 k xs) = splice1 k (map g xs)"
  by (simp add: splice1_def take_map drop_map)

lemma splice1_distinct_list: "distinct xs \<Longrightarrow> distinct (splice1 k xs)"
  by (simp add: splice1_def set_take_disj_set_drop_if_distinct)

lemma splice1_subset: "set (splice1 k xs) \<subseteq> set xs"
  unfolding splice1_def by (auto dest: in_set_takeD in_set_dropD)

text \<open>One operation: the file stays well-formed and the new identifiers lie between the
  old and the new \<^verbatim>\<open>nextId\<close>, in increasing order.\<close>

lemma step_store_ok:
  assumes "store_ok f" "next_of f + int (demand x) \<le> 9007199254740992"
  shows "store_ok (snd (step x f)) \<and> next_of f \<le> next_of (snd (step x f))
     \<and> next_of (snd (step x f)) \<le> next_of f + int (demand x)
     \<and> sorted_wrt (<) (fst (step x f))
     \<and> (\<forall>i\<in>set (fst (step x f)). next_of f \<le> i \<and> i < next_of (snd (step x f)))"
proof -
  from store_ok_initDB [OF assms(1)] obtain db where
    db: "initDB f = Inr (ParsedDb db, Stored db)" "store_ok (Stored db)"
      "images db = file_images f" "nextId db = next_of f" by blast
  from db(2,4) have pos: "0 < next_of f" by simp
  show ?thesis
  proof (cases x)
    case (Insert ts data)
    with assms(2) pos db(4) have "js_succ (nextId db) = nextId db + 1"
      by (intro js_succ_exact) simp_all
    with Insert db show ?thesis
      by (auto simp: createImage_def saveDB_def Let_def next_of_def list_all_iff)
  next
    case (Update ts i data)
    show ?thesis
    proof (cases "findIndex (\<lambda>img. img_id img = i) (images db)")
      case None
      with Update db show ?thesis
        by (simp add: updateImage_def next_of_def)
    next
      case (Some k)
      from findIndex_Some [OF Some] have k: "k < length (images db)" "img_id (images db ! k) = i"
        by auto
      let ?new = "(spread (images db ! k) data)\<lparr>img_id := i, updated_at := ts\<rparr>"
      have "map img_id ((images db)[k := ?new]) = map img_id (images db)"
        using k by (intro map_update_same) simp_all
      moreover have "list_all (\<lambda>img. img_id img < nextId db) ((images db)[k := ?new])"
        using db(2) k by (auto simp: list_all_iff dest!: set_update_subset_insert [THEN subsetD])
      ultimately show ?thesis
        using Update db Some by (simp add: updateImage_def saveDB_def Let_def next_of_def)
    qed
  next
    case (Delete i)
    show ?thesis
    proof (cases "findIndex (\<lambda>img. img_id img = i) (images db)")
      case None
      with Delete db show ?thesis
        by (simp add: deleteImage_def next_of_def)
    next
      case (Some k)
      have "distinct (map img_id (splice1 k (images db)))"
        using db(2) by (simp add: splice1_map splice1_distinct_list)
      moreover have "list_all (\<lambda>img. img_id img < nextId db) (splice1 k (images db))"
        using db(2) splice1_subset [of k "images db"] by (auto simp: list_all_iff)
      ultimately show ?thesis
        using Delete db Some by (simp add: deleteImage_def saveDB_def next_of_def)
    qed
  next
    case (Sync c req fetched)
    let ?f' = "snd (sync_handler c req fetched f)"
    have n0: "snd (load_existing f) = next_of f" by (rule load_existing_ok [OF assms(1)])
    have room: "0 \<le> snd (load_existing f)
        \<and> snd (load_existing f) + int (demand (Sync c req fetched)) \<le> 9007199254740992"
      using assms(2) pos Sync n0 by simp
    from sync_outcome [of c req fetched f] room obtain new where
      new: "file_images ?f' = file_images f @ new"
        "\<forall>k<length new. img_id (new ! k) = snd (load_existing f) + int k"
        "if new = [] then ?f' = f
         else ?f' = Stored \<lparr>images = file_images f @ new,
                             nextId = snd (load_existing f) + int (length new)\<rparr>"
        "length new \<le> demand (Sync c req fetched)"
      by blast
    have ids: "map img_id new = map (\<lambda>k. next_of f + int k) [0..<length new]"
      using new(2) n0 by (intro nth_equalityI) simp_all
    have st: "fst (step x f) = map img_id new" "snd (step x f) = ?f'"
      using Sync new(1) by (simp_all add: Let_def)
    have sorted: "sorted_wrt (<) (map img_id new)"
      unfolding ids by (simp add: sorted_wrt_map sorted_wrt_iff_nth_less)
    have range: "\<forall>i\<in>set (map img_id new). next_of f \<le> i \<and> i < next_of f + int (length new)"
      unfolding ids by auto
    show ?thesis
    proof (cases "new = []")
      case True
      with new(3) st assms(1) show ?thesis by simp
    next
      case False
      with new(3) n0 have f': "?f' = Stored \<lparr>images = file_images f @ new,
                             nextId = next_of f + int (length new)\<rparr>" by simp
      have old: "list_all (\<lambda>img. img_id img < next_of f) (file_images f)"
        "distinct (map img_id (file_images f))" "0 < next_of f"
        using db by (auto simp: )
      have dnew: "distinct (map img_id new)"
        using sorted by (simp add: strict_sorted_iff)
      have "distinct (map img_id (file_images f @ new))"
        using old(1,2) dnew range by (fastforce simp: list_all_iff)
      moreover have "list_all (\<lambda>img. img_id img < next_of f + int (length new)) (file_images f @ new)"
        using old range by (auto simp: list_all_iff)
      ultimately show ?thesis
        using st f' sorted range old(3) new(4) Sync by (simp add: next_of_def)
    qed
  qed
qed

lemma run_Cons_fst: "fst (run (x # xs) f) = fst (step x f) @ fst (run xs (snd (step x f)))"
  by (simp add: Let_def split: prod.splits)

lemma run_Cons_snd: "snd (run (x # xs) f) = snd (run xs (snd (step x f)))"
  by (simp add: Let_def split: prod.splits)

lemma run_store_ok:
  "store_ok f \<Longrightarrow> next_of f + int (sum_list (map demand ops)) \<le> 9007199254740992 \<Longrightarrow>
     store_ok (snd (run ops f)) \<and> next_of f \<le> next_of (snd (run ops f))
     \<and> next_of (snd (run ops f)) \<le> next_of f + int (sum_list (map demand ops))
     \<and> sorted_wrt (<) (fst (run ops f))
     \<and> (\<forall>i\<in>set (fst (run ops f)). next_of f \<le> i \<and> i < next_of (snd (run ops f)))"
proof (induction ops arbitrary: f)
  case Nil
  then show ?case by simp
next
  case (Cons x xs)
  let ?f1 = "snd (step x f)"
  let ?f2 = "snd (run xs ?f1)"
  let ?A = "fst (step x f)"
  let ?B = "fst (run xs ?f1)"
  from Cons.prems(2) have b1: "next_of f + int (demand x) \<le> 9007199254740992" by simp
  from step_store_ok [OF Cons.prems(1) b1]
  have one: "store_ok ?f1" "next_of f \<le> next_of ?f1" "sorted_wrt (<) ?A"
    "\<forall>i\<in>set ?A. next_of f \<le> i \<and> i < next_of ?f1"
    "next_of ?f1 \<le> next_of f + int (demand x)" by simp_all
  from one(5) Cons.prems(2)
  have b2: "next_of ?f1 + int (sum_list (map demand xs)) \<le> 9007199254740992" by simp
  from Cons.IH [OF one(1) b2]
  have rest: "store_ok ?f2" "next_of ?f1 \<le> next_of ?f2" "sorted_wrt (<) ?B"
    "\<forall>i\<in>set ?B. next_of ?f1 \<le> i \<and> i < next_of ?f2"
    "next_of ?f2 \<le> next_of ?f1 + int (sum_list (map demand xs))" by simp_all
  have cross: "\<forall>a\<in>set ?A. \<forall>b\<in>set ?B. a < b"
  proof (intro ballI)
    fix a b assume "a \<in> set ?A" "b \<in> set ?B"
    with one(4) rest(4) have "a < next_of ?f1" "next_of ?f1 \<le> b" by auto
    then show "a < b" by simp
  qed
  have s: "sorted_wrt (<) (?A @ ?B)"
    using one(3) rest(3) cross by (simp add: sorted_wrt_append)
  have r: "\<forall>i\<in>set (?A @ ?B). next_of f \<le> i \<and> i < next_of ?f2"
  proof
    fix i assume "i \<in> set (?A @ ?B)"
    then consider "i \<in> set ?A" | "i \<in> set ?B" by auto
    then show "next_of f \<le> i \<and> i < next_of ?f2"
    proof cases
      case 1
      with one(4) have "next_of f \<le> i" "i < next_of ?f1" by auto
      with rest(2) show ?thesis by simp
    next
      case 2
      with rest(4) have "next_of ?f1 \<le> i" "i < next_of ?f2" by auto
      with one(2) show ?thesis by simp
    qed
  qed
  from one(2) rest(2) have lo: "next_of f \<le> next_of ?f2" by simp
  from one(5) rest(5)
  have hi: "next_of ?f2 \<le> next_of f + int (sum_list (map demand (x # xs)))" by simp
  from rest(1) s r lo hi show ?case
    unfolding run_Cons_fst run_Cons_snd by blast
qed

lemma list_update_distinct:
  assumes "distinct ys" "k < length ys" "\<forall>j<length ys. j \<noteq> k \<longrightarrow> ys ! j \<noteq> s"
  shows "distinct (ys[k := s])"
  using assms unfolding distinct_conv_nth
  by (metis length_list_update nth_list_update)

lemma step_slugs:
  assumes "store_ok f" "distinct (map slug (file_images f))" "slug_fresh x f"
  shows "distinct (map slug (file_images (snd (step x f))))"
proof -
  from store_ok_initDB [OF assms(1)] obtain db where
    db: "initDB f = Inr (ParsedDb db, Stored db)" "store_ok (Stored db)"
      "images db = file_images f" "nextId db = next_of f" by blast
  show ?thesis
  proof (cases x)
    case (Insert ts data)
    with db assms(2,3) show ?thesis
      by (simp add: createImage_def saveDB_def Let_def file_images_def)
  next
    case (Update ts i data)
    show ?thesis
    proof (cases "findIndex (\<lambda>img. img_id img = i) (images db)")
      case None
      with Update db assms(2) show ?thesis
        by (simp add: updateImage_def file_images_def)
    next
      case (Some k)
      from findIndex_Some [OF Some] have k: "k < length (images db)" "img_id (images db ! k) = i"
        by auto
      let ?new = "(spread (images db ! k) data)\<lparr>img_id := i, updated_at := ts\<rparr>"
      have f': "file_images (snd (step x f)) = (images db)[k := ?new]"
        using Update db Some by (simp add: updateImage_def saveDB_def Let_def file_images_def)
      have m: "map slug ((images db)[k := ?new]) = (map slug (images db))[k := slug ?new]"
        by (simp add: map_update)
      have "distinct ((map slug (images db))[k := slug ?new])"
      proof (cases "p_slug data")
        case None
        then have "slug ?new = slug (images db ! k)" by (simp add: spread_def override_def)
        moreover have "(map slug (images db))[k := slug (images db ! k)] = map slug (images db)"
          using k(1) by (simp add: list_update_same_conv)
        ultimately show ?thesis using assms(2) db(3) by simp
      next
        case (Some s)
        then have sl: "slug ?new = s" by (simp add: spread_def override_def)
        have other: "\<forall>j<length (map slug (images db)). j \<noteq> k \<longrightarrow> map slug (images db) ! j \<noteq> s"
        proof (intro allI impI)
          fix j assume j: "j < length (map slug (images db))" "j \<noteq> k"
          from db(2) have "distinct (map img_id (images db))" by simp
          with j k have "img_id (images db ! j) \<noteq> i"
            by (auto simp: distinct_conv_nth)
          with j have "images db ! j \<in> set (filter (\<lambda>img. img_id img \<noteq> i) (images db))"
            by simp
          with assms(3) Update Some db(3) have "slug (images db ! j) \<noteq> s"
            by auto
          with j show "map slug (images db) ! j \<noteq> s" by simp
        qed
        from list_update_distinct [OF _ _ other] assms(2) db(3) k(1) sl show ?thesis by simp
      qed
      with f' m show ?thesis by simp
    qed
  next
    case (Delete i)
    show ?thesis
    proof (cases "findIndex (\<lambda>img. img_id img = i) (images db)")
      case None
      with Delete db assms(2) show ?thesis
        by (simp add: deleteImage_def file_images_def)
    next
      case (Some k)
      with Delete db assms(2) show ?thesis
        by (simp add: deleteImage_def saveDB_def file_images_def splice1_map splice1_distinct_list)
    qed
  next
    case (Sync c req fetched)
    from sync_outcome [of c req fetched f] obtain new where
      "file_images (snd (sync_handler c req fetched f)) = file_images f @ new"
      "distinct (map slug new)"
      "set (map slug new) \<inter> set (map slug (file_images f)) = {}"
      by blast
    with Sync assms(2) show ?thesis by (auto simp: Let_def)
  qed
qed

lemma run_slugs:
  "store_ok f \<Longrightarrow> next_of f + int (sum_list (map demand ops)) \<le> 9007199254740992 \<Longrightarrow>
   distinct (map slug (file_images f)) \<Longrightarrow> all_slug_fresh ops f \<Longrightarrow>
     distinct (map slug (file_images (snd (run ops f))))"
proof (induction ops arbitrary: f)
  case Nil
  then show ?case by simp
next
  case (Cons x xs)
  from Cons.prems have fresh: "slug_fresh x f" "all_slug_fresh xs (snd (step x f))" by simp_all
  from Cons.prems(2) have b1: "next_of f + int (demand x) \<le> 9007199254740992" by simp
  from step_store_ok [OF Cons.prems(1) b1]
  have ok: "store_ok (snd (step x f))"
    and hi: "next_of (snd (step x f)) \<le> next_of f + int (demand x)" by simp_all
  from hi Cons.prems(2)
  have b2: "next_of (snd (step x f)) + int (sum_list (map demand xs)) \<le> 9007199254740992"
    by simp
  from step_slugs [OF Cons.prems(1,3) fresh(1)]
  have d: "distinct (map slug (file_images (snd (step x f))))" .
  from Cons.IH [OF ok b2 d fresh(2)] show ?case
    unfolding run_Cons_snd .
qed

text \<open>
  The bound is needed. At 2^53 the counter stops, and two inserts get the same identifier.
\<close>

lemma nextId_saturates:
  "js_succ 9007199254740992 = 9007199254740992"
  "fst (run [Insert ''2024-01-01'' (sample_image 0 ''a'' 0),
             Insert ''2024-01-01'' (sample_image 0 ''b'' 0)]
            (Stored \<lparr>images = [], nextId = 9007199254740992\<rparr>))
     = [9007199254740992, 9007199254740992]"
  by code_simp+

text \<open>
  Claim C3, as amended. For every sequence of insert, update, delete and sync, started on
  a well-formed store (no file yet, or distinct identifiers below \<^verbatim>\<open>nextId\<close>) and short
  enough to keep the counter within 2^53 (the counter at the start plus one for each
  insert and one for each moment listed to a sync is at most 2^53; \<^verbatim>\<open>nextId++\<close> is exact
  there): every state reached is well-formed, the identifiers are pairwise distinct, and
  the identifiers are assigned monotonically, each one strictly greater than every
  identifier assigned before it and than every identifier of the starting store. Slugs
  stay unique as long as no insert or update brings a slug that another record carries;
  the store itself does not check this.
\<close>

theorem run_invariant:
  assumes "store_ok f"
    and "next_of f + int (sum_list (map demand ops)) \<le> 9007199254740992"
  shows "store_ok (snd (run ops f))
     \<and> sorted_wrt (<) (fst (run ops f))
     \<and> (\<forall>i\<in>set (fst (run ops f)). list_all (\<lambda>img. img_id img < i) (file_images f))
     \<and> distinct (map img_id (file_images (snd (run ops f))))
     \<and> (distinct (map slug (file_images f)) \<and> all_slug_fresh ops f \<longrightarrow>
          distinct (map slug (file_images (snd (run ops f)))))"
proof -
  note r = run_store_ok [OF assms]
  have old: "list_all (\<lambda>img. img_id img < next_of f) (file_images f)"
    using assms(1) by (cases f) (auto simp: file_images_def next_of_def)
  have "\<forall>i\<in>set (fst (run ops f)). list_all (\<lambda>img. img_id img < i) (file_images f)"
  proof
    fix i assume "i \<in> set (fst (run ops f))"
    with r have "next_of f \<le> i" by simp
    with old show "list_all (\<lambda>img. img_id img < i) (file_images f)"
      by (auto simp: list_all_iff)
  qed
  moreover have "distinct (map img_id (file_images (snd (run ops f))))"
    using r by (cases "snd (run ops f)") (auto simp: file_images_def)
  ultimately show ?thesis
    using r run_slugs [OF assms] by blast
qed

lemma sample_ops_facts:
  "all_slug_fresh sample_ops (Stored sample_db)"
  "fst (run sample_ops (Stored sample_db)) = [3, 4, 5, 6]"
  "next_of (Stored sample_db) + int (sum_list (map demand sample_ops)) \<le> 9007199254740992"
  by code_simp+

theorem run_invariant_witness:
  "store_ok (Stored sample_db)
   \<and> next_of (Stored sample_db) + int (sum_list (map demand sample_ops)) \<le> 9007199254740992
   \<and> distinct (map slug (file_images (Stored sample_db)))
   \<and> all_slug_fresh sample_ops (Stored sample_db)
   \<and> fst (run sample_ops (Stored sample_db)) = [3, 4, 5, 6]
   \<and> store_ok (snd (run sample_ops (Stored sample_db)))
   \<and> sorted_wrt (<) (fst (run sample_ops (Stored sample_db)))
   \<and> distinct (map slug (file_images (snd (run sample_ops (Stored sample_db)))))"
proof -
  have ok: "store_ok (Stored sample_db)"
    by (simp add: sample_db_def sample_image_def)
  have d: "distinct (map slug (file_images (Stored sample_db)))"
    by (simp add: file_images_def sample_db_def sample_image_def)
  from run_invariant [OF ok sample_ops_facts(3)] d sample_ops_facts(1)
  have "store_ok (snd (run sample_ops (Stored sample_db)))"
    "sorted_wrt (<) (fst (run sample_ops (Stored sample_db)))"
    "distinct (map slug (file_images (snd (run sample_ops (Stored sample_db)))))"
    by blast+
  with ok d sample_ops_facts show ?thesis by simp
qed

text \<open>
  The claim as stated fails on slugs: inserting the same slug twice leaves two records
  with it.
\<close>

theorem insert_duplicates_counterexample:
  "\<not> distinct (map slug (file_images (snd (run
        [Insert ''2024-01-01'' (sample_image 0 ''a'' 0),
         Insert ''2024-01-01'' (sample_image 0 ''a'' 0)] Missing))))"
  unfolding dup_db_reachable
  by (simp add: file_images_def dup_db_def sample_image_def)

section \<open>Derivation of slugs\<close>




text \<open>
  The handler never answers an upload with the record: without the bearer token the
  answer is 401, with it the answer is 405 and the record is made by the callback.
\<close>

lemma admin_post_unauthorized:
  "authHeader \<noteq> Some (''Bearer '' @ or_empty (or_else ADMIN_PASSWORD (Some ''admin123''))) \<Longrightarrow>
     admin_post authHeader ADMIN_PASSWORD lc ts u f
       = (\<lparr>a_status = 401, a_body = Error_body ''Unauthorized''\<rparr>, f)"
  by (simp add: admin_post_def Let_def)

lemma admin_post_authorized:
  "authHeader = Some (''Bearer '' @ or_empty (or_else ADMIN_PASSWORD (Some ''admin123''))) \<Longrightarrow>
     admin_post authHeader ADMIN_PASSWORD lc ts u f
       = (\<lparr>a_status = 405, a_body = Error_body ''Method not allowed''\<rparr>,
          upload_callback lc ts u f)"
  by (simp add: admin_post_def Let_def truthy_def)

lemma admin_post_sample:
  "admin_post (Some ''Bearer admin123'') None (\<lambda>s. s) ''2024-06-01''
       (uploaded (Some ''Desert Sunset.jpg'')) Missing
     = (\<lparr>a_status = 405, a_body = Error_body ''Method not allowed''\<rparr>,
        upload_callback (\<lambda>s. s) ''2024-06-01'' (uploaded (Some ''Desert Sunset.jpg'')) Missing)"
  by (rule admin_post_authorized) (simp add: or_else_def or_empty_def truthy_def)




section \<open>The frontend reader\<close>

lemma gallery_try_truthy:
  "gallery_try env f = Inr imgs \<Longrightarrow> \<forall>img\<in>set imgs. js_truthy (g_image_url img)"
  by (cases f)
     (auto simp: gallery_try_def array_sort_set split: sum.splits jsval.splits)

text \<open>
  Claim C9. For every state of the database file the frontend list-all function returns
  a list and never throws, its whole body standing inside the \<^verbatim>\<open>try\<close>: without a file,
  on a read failure, on a parse failure and whenever anything in the body throws (a
  malformed value), the result is the empty list; and every record it returns has a
  non-empty image URL, records without one being filtered out.
\<close>

theorem gallery_getAllImages_safe:
  "gallery_getAllImages env No_file = []
   \<and> gallery_getAllImages env Read_fails = []
   \<and> gallery_getAllImages env Bad_json = []
   \<and> (\<forall>e. gallery_try env f = Inl e \<longrightarrow> gallery_getAllImages env f = [])
   \<and> (\<forall>img\<in>set (gallery_getAllImages env f).
         js_truthy (g_image_url img) \<and> g_image_url img \<noteq> JStr []
         \<and> g_image_url img \<noteq> JNull \<and> g_image_url img \<noteq> JUndefined)"
proof -
  have "\<forall>img\<in>set (gallery_getAllImages env f). js_truthy (g_image_url img)"
  proof (cases "gallery_try env f")
    case (Inl e)
    then show ?thesis by (simp add: gallery_getAllImages_def)
  next
    case (Inr imgs)
    with gallery_try_truthy [OF Inr] show ?thesis by (simp add: gallery_getAllImages_def)
  qed
  then have "\<forall>img\<in>set (gallery_getAllImages env f).
         js_truthy (g_image_url img) \<and> g_image_url img \<noteq> JStr []
         \<and> g_image_url img \<noteq> JNull \<and> g_image_url img \<noteq> JUndefined"
    by auto
  then show ?thesis
    by (simp add: gallery_getAllImages_def gallery_try_def)
qed

lemma sample_json_ids:
  "map g_id (gallery_getAllImages sample_env (Json sample_json)) = [''3'', ''1'']"
  by code_simp

lemma malformed_json:
  "gallery_getAllImages sample_env (Json JNull) = []"
  "gallery_getAllImages sample_env (Json (JObj [(''images'', JNum 5)])) = []"
  "gallery_getAllImages sample_env (Json (JArr [JNull])) = []"
  "gallery_getAllImages sample_env (Json (JNum 7)) = []"
  by code_simp+

theorem gallery_getAllImages_safe_witness:
  "gallery_try sample_env (Json (JArr [JNull])) = Inl TypeError
   \<and> gallery_getAllImages sample_env (Json (JArr [JNull])) = []
   \<and> map g_image_url (gallery_getAllImages sample_env (Json sample_json))
        = [JStr ''/c.jpg'', JStr ''/a.jpg'']
   \<and> list_all (\<lambda>img. js_truthy (g_image_url img))
        (gallery_getAllImages sample_env (Json sample_json))"
proof -
  have a: "gallery_try sample_env (Json (JArr [JNull])) = Inl TypeError" by code_simp
  have b: "map g_image_url (gallery_getAllImages sample_env (Json sample_json))
        = [JStr ''/c.jpg'', JStr ''/a.jpg'']" by code_simp
  from gallery_getAllImages_safe [of sample_env "Json (JArr [JNull])"] a
  have c: "gallery_getAllImages sample_env (Json (JArr [JNull])) = []" by blast
  from gallery_getAllImages_safe [of sample_env "Json sample_json"]
  have d: "list_all (\<lambda>img. js_truthy (g_image_url img))
        (gallery_getAllImages sample_env (Json sample_json))"
    by (simp add: list_all_iff)
  from a b c d show ?thesis by simp
qed

end
